theory Spec2Isabelle
  imports Main "HOL-Library.Signed_Division"
begin

section \<open>Data model\<close>

text \<open>
  The two source files are two revisions of the same header \<^verbatim>\<open>cellpool.h\<close>: namespace
  \<^verbatim>\<open>mappool\<close> (buffer, slice, pool) is shared, namespace \<^verbatim>\<open>quad\<close> (fixed 2 x 2 arrangement of
  tiles, compile-time constants) lives in \<^verbatim>\<open>source/cellpool.h\<close>, and namespace \<^verbatim>\<open>quadmap\<close>
  (tiles with their own scale, a grid grown by \<^verbatim>\<open>add\<close>) lives in the second file.

  Conventions of the embedding.
  \<^item> \<^verbatim>\<open>glm::ivec2\<close> is a record of two integers. A C++ \<^verbatim>\<open>int\<close> has 32 bits: its values are
    the integers from \<open>- 2 ^ 31\<close> up to \<open>2 ^ 31 - 1\<close> (\<open>in_int32\<close>). Signed overflow is
    undefined behaviour in C++; the compiled code wraps around in two's complement, and
    the model writes that out: every \<open>+\<close>, \<open>-\<close> and \<open>*\<close> that the source files do on a run-time
    \<^verbatim>\<open>int\<close> goes through \<open>wrap32\<close>. The compile-time constants of namespace \<^verbatim>\<open>quad\<close> are small
    and are computed on the integers.
  \<^item> \<^verbatim>\<open>size_t\<close> is \<open>nat\<close>. The only arithmetic the code does on a \<^verbatim>\<open>size_t\<close> is the
    subtraction in \<^verbatim>\<open>pool::get\<close>, which the guard in front of it keeps from wrapping.
  \<^item> A pointer is \<open>Null\<close> or an address \<open>Addr a\<close>, counted in elements of the pointee type.
  \<^item> Integer division traps on a zero divisor (\<open>DivisionByZero\<close>) and on the one quotient
    that does not fit, \<open>- 2 ^ 31\<close> divided by \<open>- 1\<close> (\<open>DivisionOverflow\<close>).
\<close>

datatype ptr = Null | Addr int

datatype error = DivisionByZero | DivisionOverflow

record ivec2 =
  vx :: int
  vy :: int

text \<open>The values of a 32-bit \<^verbatim>\<open>int\<close>, and the value that the machine keeps of an
  arithmetic result.\<close>

definition in_int32 :: "int \<Rightarrow> bool" where
  "in_int32 k \<longleftrightarrow> - (2 ^ 31) \<le> k \<and> k < 2 ^ 31"

definition wrap32 :: "int \<Rightarrow> int" where
  "wrap32 k = (k + 2 ^ 31) mod 2 ^ 32 - 2 ^ 31"

text \<open>Pointer arithmetic \<^verbatim>\<open>p + k\<close>. On a null pointer it is undefined in C++; the model
  leaves the pointer null there. \<^verbatim>\<open>slice::get\<close> tests for null before it adds, and no pool
  that the interface produces holds a free region with a null start.\<close>

fun ptr_add :: "ptr \<Rightarrow> int \<Rightarrow> ptr" where
  "ptr_add Null k = Null"
| "ptr_add (Addr a) k = Addr (a + k)"

subsection \<open>The vector operations of glm that the code uses\<close>

definition ivec2_sub :: "ivec2 \<Rightarrow> ivec2 \<Rightarrow> ivec2" where
  "ivec2_sub p q = \<lparr>vx = wrap32 (vx p - vx q), vy = wrap32 (vy p - vy q)\<rparr>"

definition ivec2_add :: "ivec2 \<Rightarrow> ivec2 \<Rightarrow> ivec2" where
  "ivec2_add p q = \<lparr>vx = wrap32 (vx p + vx q), vy = wrap32 (vy p + vy q)\<rparr>"

definition ivec2_mul :: "ivec2 \<Rightarrow> ivec2 \<Rightarrow> ivec2" where
  "ivec2_mul p q = \<lparr>vx = wrap32 (vx p * vx q), vy = wrap32 (vy p * vy q)\<rparr>"

definition ivec2_min :: "ivec2 \<Rightarrow> ivec2 \<Rightarrow> ivec2" where
  "ivec2_min p q = \<lparr>vx = min (vx p) (vx q), vy = min (vy p) (vy q)\<rparr>"

definition ivec2_max :: "ivec2 \<Rightarrow> ivec2 \<Rightarrow> ivec2" where
  "ivec2_max p q = \<lparr>vx = max (vx p) (vx q), vy = max (vy p) (vy q)\<rparr>"

text \<open>C++ integer division: the quotient is truncated towards zero (\<open>sdiv\<close>). A zero
  divisor traps, and so does \<open>- 2 ^ 31\<close> divided by \<open>- 1\<close>, whose quotient is not an
  \<^verbatim>\<open>int\<close>.\<close>

definition c_div :: "int \<Rightarrow> int \<Rightarrow> error + int" where
  "c_div a b =
     (if b = 0 then Inl DivisionByZero
      else if a = - (2 ^ 31) \<and> b = - 1 then Inl DivisionOverflow
      else Inr (a sdiv b))"

text \<open>\<^verbatim>\<open>ivec2 / ivec2\<close>, componentwise.\<close>

definition ivec2_div :: "ivec2 \<Rightarrow> ivec2 \<Rightarrow> error + ivec2" where
  "ivec2_div p q =
     (case c_div (vx p) (vx q) of
        Inl e \<Rightarrow> Inl e
      | Inr a \<Rightarrow>
          (case c_div (vy p) (vy q) of
             Inl e \<Rightarrow> Inl e
           | Inr b \<Rightarrow> Inr \<lparr>vx = a, vy = b\<rparr>))"

text \<open>\<^verbatim>\<open>ivec2 / int\<close>: both components divided by the same scalar.\<close>

definition ivec2_div_scalar :: "ivec2 \<Rightarrow> int \<Rightarrow> error + ivec2" where
  "ivec2_div_scalar p k = ivec2_div p \<lparr>vx = k, vy = k\<rparr>"

subsection \<open>mappool::buf, mappool::slice\<close>

record buf =
  start :: ptr
  bsize :: nat

text \<open>The value \<^verbatim>\<open>{NULL, 0}\<close> that \<^verbatim>\<open>pool::get\<close> returns on failure, which is also a
  default-constructed \<^verbatim>\<open>buf\<close>.\<close>

definition null_buf :: buf where
  "null_buf = \<lparr>start = Null, bsize = 0\<rparr>"

text \<open>The slice of \<^verbatim>\<open>source/cellpool.h\<close> has the fields \<open>root\<close> and \<open>res\<close>; the slice of the
  second file adds \<open>scale\<close>. \<open>oob\<close> and \<open>get\<close> are the same text in both files and are defined
  once, on every extension of the record.\<close>

record slice =
  root :: buf
  res :: ivec2

record scaled_slice = slice +
  scale :: int

text \<open>Modelled from the spec: \<^verbatim>\<open>math::flatten\<close> is called by \<^verbatim>\<open>slice::get\<close> and is not among
  the source files. The spec gives the offset of an in-bounds point \<open>p\<close> within \<open>res\<close> as
  \<open>p.x * res.y + p.y\<close>; the formula is taken as the spec gives it, on the integers.\<close>

definition flatten :: "ivec2 \<Rightarrow> ivec2 \<Rightarrow> int" where
  "flatten p r = vx p * vy r + vy p"

definition slice_oob :: "'a slice_scheme \<Rightarrow> ivec2 \<Rightarrow> bool" where
  "slice_oob s p =
     (if vx p \<ge> vx (res s) then True
      else if vy p \<ge> vy (res s) then True
      else if vx p < 0 then True
      else if vy p < 0 then True
      else False)"

definition slice_get :: "'a slice_scheme \<Rightarrow> ivec2 \<Rightarrow> ptr" where
  "slice_get s p =
     (if start (root s) = Null then Null
      else if slice_oob s p then Null
      else ptr_add (start (root s)) (flatten p (res s)))"

subsection \<open>mappool::pool\<close>

record pool =
  pool_root :: buf
  free :: "buf list"

text \<open>The default constructor \<^verbatim>\<open>pool(){}\<close>.\<close>

definition pool_empty :: pool where
  "pool_empty = \<lparr>pool_root = null_buf, free = []\<rparr>"

text \<open>\<^verbatim>\<open>reserve(_size)\<close>. The first argument is the address that \<^verbatim>\<open>new T[root.size]\<close> returned;
  \<^verbatim>\<open>new\<close> never returns a null pointer (it throws instead, which ends the program).\<close>

definition reserve :: "int \<Rightarrow> nat \<Rightarrow> pool \<Rightarrow> pool" where
  "reserve a n P =
     (let r = \<lparr>start = Addr a, bsize = n\<rparr>
      in P\<lparr>pool_root := r, free := \<lparr>start = start r, bsize = bsize r\<rparr> # free P\<rparr>)"

text \<open>The constructor \<^verbatim>\<open>pool(size_t _size)\<close>.\<close>

definition pool_new :: "int \<Rightarrow> nat \<Rightarrow> pool" where
  "pool_new a n = reserve a n pool_empty"

text \<open>\<^verbatim>\<open>get(_size)\<close>: the buffer returned, and the pool after the call.\<close>

definition pool_get :: "pool \<Rightarrow> nat \<Rightarrow> buf \<times> pool" where
  "pool_get P n =
     (case free P of
        [] \<Rightarrow> (null_buf, P)
      | f # fs \<Rightarrow>
          if n > bsize (pool_root P) then (null_buf, P)
          else if bsize f < n then (null_buf, P)
          else (\<lparr>start = start f, bsize = n\<rparr>,
                P\<lparr>free := \<lparr>start = ptr_add (start f) (int n), bsize = bsize f - n\<rparr> # fs\<rparr>))"

text \<open>A sequence of \<open>get\<close> calls on one pool: the buffers in the order of the calls, and
  the final pool.\<close>

fun pool_gets :: "pool \<Rightarrow> nat list \<Rightarrow> buf list \<times> pool" where
  "pool_gets P [] = ([], P)"
| "pool_gets P (n # ns) =
     (let (b, P') = pool_get P n;
          (bs, P'') = pool_gets P' ns
      in (b # bs, P''))"

text \<open>The pools that the interface can produce: what a sequence of \<open>reserve\<close> and \<open>get\<close>
  calls makes of a pool. \<open>Reserve a n\<close> is the call \<^verbatim>\<open>reserve(n)\<close> in which \<^verbatim>\<open>new\<close> returned the
  address \<open>a\<close>.\<close>

datatype pool_call = Reserve int nat | Get nat

fun pool_run :: "pool \<Rightarrow> pool_call list \<Rightarrow> pool" where
  "pool_run P [] = P"
| "pool_run P (Reserve a n # cs) = pool_run (reserve a n P) cs"
| "pool_run P (Get n # cs) = pool_run (snd (pool_get P n)) cs"

text \<open>The cells a buffer covers.\<close>

definition cells :: "buf \<Rightarrow> int set" where
  "cells b = (case start b of Null \<Rightarrow> {} | Addr a \<Rightarrow> {a ..< a + int (bsize b)})"

subsection \<open>quadmap::node, quadmap::map (tiles with their own scale)\<close>

record node =
  node_pos :: ivec2
  node_res :: ivec2
  node_vertex :: ptr
  node_s :: scaled_slice

definition node_get :: "node \<Rightarrow> ivec2 \<Rightarrow> error + ptr" where
  "node_get n p =
     (case ivec2_div_scalar (ivec2_sub p (node_pos n)) (scale (node_s n)) of
        Inl e \<Rightarrow> Inl e
      | Inr q \<Rightarrow> Inr (slice_get (node_s n) q))"

definition node_oob :: "node \<Rightarrow> ivec2 \<Rightarrow> error + bool" where
  "node_oob n p =
     (case ivec2_div_scalar (ivec2_sub p (node_pos n)) (scale (node_s n)) of
        Inl e \<Rightarrow> Inl e
      | Inr q \<Rightarrow> Inr (slice_oob (node_s n) q))"

text \<open>A pointer to a node, as \<^verbatim>\<open>map::get\<close> returns it: null, or the address of slot \<open>ind\<close>
  of the node storage. \<^verbatim>\<open>&nodes[ind]\<close> is computed without a range check, so the slot need
  not exist.\<close>

datatype node_ptr = NodeNull | NodeAt int

record quadmap =
  nodes :: "node list"
  map_min :: ivec2
  map_max :: ivec2

text \<open>A default-constructed map: no nodes, \<^verbatim>\<open>_min = _max = ivec2(0)\<close>.\<close>

definition quadmap_empty :: quadmap where
  "quadmap_empty = \<lparr>nodes = [], map_min = \<lparr>vx = 0, vy = 0\<rparr>, map_max = \<lparr>vx = 0, vy = 0\<rparr>\<rparr>"

definition quadmap_add :: "quadmap \<Rightarrow> node \<Rightarrow> quadmap" where
  "quadmap_add g n =
     g\<lparr>nodes := nodes g @ [n],
       map_min := ivec2_min (map_min g) (node_pos n),
       map_max := ivec2_max (map_max g) (ivec2_add (node_pos n) (node_res n))\<rparr>"

text \<open>A sequence of \<open>add\<close> calls on a default-constructed map.\<close>

definition quadmap_adds :: "node list \<Rightarrow> quadmap" where
  "quadmap_adds ts = foldl quadmap_add quadmap_empty ts"

definition map_oob :: "quadmap \<Rightarrow> ivec2 \<Rightarrow> bool" where
  "map_oob g p =
     (if vx p < vx (map_min g) then True
      else if vy p < vy (map_min g) then True
      else if vx p \<ge> vx (map_max g) then True
      else if vy p \<ge> vy (map_max g) then True
      else False)"

text \<open>\<^verbatim>\<open>map::get\<close>. The macros \<^verbatim>\<open>WSIZE\<close> (extent of a tile) and \<^verbatim>\<open>TILES\<close> (tiles per axis) are
  defined outside the source files and are the parameters \<open>W\<close> and \<open>T\<close>.\<close>

definition map_get :: "int \<Rightarrow> int \<Rightarrow> quadmap \<Rightarrow> ivec2 \<Rightarrow> error + node_ptr" where
  "map_get W T g p =
     (if map_oob g p then Inr NodeNull
      else
        (case ivec2_div p \<lparr>vx = W, vy = W\<rparr> of
           Inl e \<Rightarrow> Inl e
         | Inr q \<Rightarrow> Inr (NodeAt (wrap32 (wrap32 (vx q * T) + vy q)))))"

text \<open>The footprint of a tile: the world points from \<open>pos\<close> up to, not including,
  \<open>pos + res\<close>.\<close>

definition footprint :: "ivec2 \<Rightarrow> ivec2 \<Rightarrow> ivec2 \<Rightarrow> bool" where
  "footprint ps rs p \<longleftrightarrow>
     vx ps \<le> vx p \<and> vx p < vx ps + vx rs \<and> vy ps \<le> vy p \<and> vy p < vy ps + vy rs"

text \<open>The layout that \<^verbatim>\<open>map::get\<close> relies on: \<open>T * T\<close> tiles of extent \<open>W\<close> by \<open>W\<close> on the
  lattice that starts at the origin, stored in row-major order, that is, the tile in slot
  \<open>k\<close> placed at \<open>((k div T) * W, (k mod T) * W)\<close>.\<close>

definition origin_row_major_grid :: "int \<Rightarrow> int \<Rightarrow> node list \<Rightarrow> bool" where
  "origin_row_major_grid W T ts \<longleftrightarrow>
     0 < W \<and> 0 < T \<and> length ts = nat (T * T) \<and>
     list_all
       (\<lambda>k. node_pos (ts ! k) = \<lparr>vx = (int k div T) * W, vy = (int k mod T) * W\<rparr> \<and>
            node_res (ts ! k) = \<lparr>vx = W, vy = W\<rparr>)
       [0 ..< length ts]"

text \<open>The bounding box as the spec words it: the componentwise minimum of the positions,
  and the componentwise maximum of position plus extent, over the tiles of a non-empty
  list and nothing else.\<close>

definition spec_min :: "node list \<Rightarrow> ivec2" where
  "spec_min ts = foldl ivec2_min (node_pos (hd ts)) (map node_pos (tl ts))"

text \<open>\<open>pos + res\<close> of a tile as the integers give it, without wrap-around.\<close>

definition far_corner :: "node \<Rightarrow> ivec2" where
  "far_corner n =
     \<lparr>vx = vx (node_pos n) + vx (node_res n), vy = vy (node_pos n) + vy (node_res n)\<rparr>"

definition spec_max :: "node list \<Rightarrow> ivec2" where
  "spec_max ts = foldl ivec2_max (far_corner (hd ts)) (map far_corner (tl ts))"

text \<open>A uniform grid as the spec words it: \<open>T * T\<close> tiles of equal extent \<open>W\<close> by \<open>W\<close> whose
  positions are the points of a lattice with \<open>T\<close> tiles per axis. Nothing is said about
  where the lattice starts (it starts at the least position) or about the order of the
  tiles in the collection.\<close>

definition spec_uniform_grid :: "int \<Rightarrow> int \<Rightarrow> node list \<Rightarrow> bool" where
  "spec_uniform_grid W T ts \<longleftrightarrow>
     0 < W \<and> 0 < T \<and> length ts = nat (T * T) \<and>
     list_all (\<lambda>n. node_res n = \<lparr>vx = W, vy = W\<rparr>) ts \<and>
     set (map node_pos ts) =
       set (concat (map (\<lambda>i. map (\<lambda>j. \<lparr>vx = vx (spec_min ts) + i * W,
                                         vy = vy (spec_min ts) + j * W\<rparr>)
                                 [0 .. T - 1])
                        [0 .. T - 1]))"

subsection \<open>quad::node, quad::map (fixed arrangement of tiles)\<close>

definition tilesize :: int where "tilesize = 512"
definition tilearea :: int where "tilearea = tilesize * tilesize"
definition tileres :: ivec2 where "tileres = \<lparr>vx = tilesize, vy = tilesize\<rparr>"
definition mapsize :: int where "mapsize = 2"
definition maparea :: int where "maparea = mapsize * mapsize"
definition quad_size :: int where "quad_size = mapsize * tilesize"
definition levelsize :: int where "levelsize = 2"
definition levelarea :: int where "levelarea = levelsize * levelsize"

record qnode =
  qnode_pos :: ivec2
  qnode_res :: ivec2
  qnode_vertex :: ptr
  qnode_s :: slice

definition quad_node_get :: "qnode \<Rightarrow> ivec2 \<Rightarrow> error + ptr" where
  "quad_node_get n p =
     (case ivec2_div_scalar (ivec2_sub p (qnode_pos n)) levelsize of
        Inl e \<Rightarrow> Inl e
      | Inr q \<Rightarrow> Inr (slice_get (qnode_s n) q))"

definition quad_node_oob :: "qnode \<Rightarrow> ivec2 \<Rightarrow> error + bool" where
  "quad_node_oob n p =
     (case ivec2_div_scalar (ivec2_sub p (qnode_pos n)) levelsize of
        Inl e \<Rightarrow> Inl e
      | Inr q \<Rightarrow> Inr (slice_oob (qnode_s n) q))"

text \<open>\<^verbatim>\<open>quad::map\<close> holds the array \<^verbatim>\<open>node nodes[maparea]\<close>; \<open>oob\<close> and \<open>get\<close> read only the
  constants, and \<open>get\<close> returns the address of a slot of that array.\<close>

record quad_map =
  qnodes :: "qnode list"

definition quad_map_oob :: "ivec2 \<Rightarrow> bool" where
  "quad_map_oob p =
     (if vx p < 0 then True
      else if vy p < 0 then True
      else if vx p \<ge> quad_size then True
      else if vy p \<ge> quad_size then True
      else False)"

definition quad_map_get :: "ivec2 \<Rightarrow> error + node_ptr" where
  "quad_map_get p =
     (if quad_map_oob p then Inr NodeNull
      else
        (case ivec2_div p tileres of
           Inl e \<Rightarrow> Inl e
         | Inr q \<Rightarrow> Inr (NodeAt (wrap32 (wrap32 (vx q * mapsize) + vy q)))))"

text \<open>A \<^verbatim>\<open>for\<close> loop over the values of a list, threading the state and stopping at an
  error.\<close>

fun for_each :: "'a list \<Rightarrow> ('a \<Rightarrow> 'st \<Rightarrow> error + 'st) \<Rightarrow> 'st \<Rightarrow> error + 'st" where
  "for_each [] f st = Inr st"
| "for_each (a # as) f st =
     (case f a st of Inl e \<Rightarrow> Inl e | Inr st' \<Rightarrow> for_each as f st')"

text \<open>The body of the loops of \<^verbatim>\<open>quad::map::init\<close> for one pair \<open>(i, j)\<close>. The vertex pool
  belongs to the renderer and is not among the source files: \<open>sect ind\<close> is the handle
  that \<^verbatim>\<open>vertexpool.section\<close> returns for the tile of slot \<open>ind\<close>, and \<^verbatim>\<open>indexnode\<close> writes to
  the vertex pool only. The aggregate assignment leaves the slice default-constructed;
  the second assignment sets it from what the cell pool returns. The request size
  \<^verbatim>\<open>tilearea/levelarea\<close> is a positive \<^verbatim>\<open>int\<close> constant, which converts to \<^verbatim>\<open>size_t\<close> unchanged.\<close>

definition init_tile ::
  "(int \<Rightarrow> ptr) \<Rightarrow> int \<Rightarrow> int \<Rightarrow> quad_map \<times> pool \<Rightarrow> error + quad_map \<times> pool" where
  "init_tile sect i j st =
     (let m = fst st; cp = snd st;
          ind = wrap32 (wrap32 (i * mapsize) + j);
          n0 = \<lparr>qnode_pos = ivec2_mul tileres \<lparr>vx = i, vy = j\<rparr>,
                qnode_res = tileres,
                qnode_vertex = sect ind,
                qnode_s = \<lparr>root = null_buf, res = \<lparr>vx = 0, vy = 0\<rparr>\<rparr>\<rparr>
      in case c_div tilearea levelarea of
           Inl e \<Rightarrow> Inl e
         | Inr k \<Rightarrow>
             (case ivec2_div_scalar tileres levelsize of
                Inl e \<Rightarrow> Inl e
              | Inr r \<Rightarrow>
                  (let (b, cp') = pool_get cp (nat k);
                       n1 = n0\<lparr>qnode_s := \<lparr>root = b, res = r\<rparr>\<rparr>
                   in Inr (m\<lparr>qnodes := (qnodes m)[nat ind := n1]\<rparr>, cp'))))"

definition init :: "(int \<Rightarrow> ptr) \<Rightarrow> quad_map \<Rightarrow> pool \<Rightarrow> error + quad_map \<times> pool" where
  "init sect m cp =
     for_each [0 .. mapsize - 1]
       (\<lambda>i. for_each [0 .. mapsize - 1] (\<lambda>j. init_tile sect i j)) (m, cp)"

subsection \<open>What a bump allocator is expected to issue\<close>

text \<open>Consecutive ranges of the requested lengths, the first one at address \<open>b\<close>. The
  theorems about \<open>pool_gets\<close> compare what the pool returns with this list.\<close>

fun issued :: "int \<Rightarrow> nat list \<Rightarrow> buf list" where
  "issued b [] = []"
| "issued b (n # ns) = \<lparr>start = Addr b, bsize = n\<rparr> # issued (b + int n) ns"

section \<open>32-bit arithmetic\<close>

lemma wrap32_id: "in_int32 k \<Longrightarrow> wrap32 k = k"
  by (simp add: wrap32_def in_int32_def)

lemma in_int32_wrap32: "in_int32 (wrap32 k)"
proof -
  have "0 \<le> (k + 2 ^ 31) mod (2 ^ 32 :: int)" and "(k + 2 ^ 31) mod (2 ^ 32 :: int) < 2 ^ 32"
    by simp_all
  then show ?thesis by (simp add: wrap32_def in_int32_def)
qed

section \<open>Slices\<close>

lemma ptr_add_not_Null: "q \<noteq> Null \<Longrightarrow> ptr_add q k \<noteq> Null"
  by (cases q) simp_all

lemma slice_oob_iff:
  "slice_oob s p \<longleftrightarrow> vx p < 0 \<or> vy p < 0 \<or> vx p \<ge> vx (res s) \<or> vy p \<ge> vy (res s)"
  by (auto simp: slice_oob_def)

lemma slice_get_Null_iff:
  "slice_get s p = Null \<longleftrightarrow> start (root s) = Null \<or> slice_oob s p"
  by (simp add: slice_get_def ptr_add_not_Null)

text \<open>
  Claim C3. For every point \<open>p\<close>, \<open>Slice.get(p)\<close> is null exactly when the backing pointer
  is null or \<open>Slice.oob(p)\<close> holds, and \<open>Slice.oob(p)\<close> holds exactly when
  \<open>p.x < 0\<close>, \<open>p.y < 0\<close>, \<open>p.x \<ge> res.x\<close> or \<open>p.y \<ge> res.y\<close>.
\<close>

theorem slice_get_null_iff_oob:
  "(slice_get s p = Null) = (start (root s) = Null \<or> slice_oob s p) \<and>
   slice_oob s p = (vx p < 0 \<or> vy p < 0 \<or> vx p \<ge> vx (res s) \<or> vy p \<ge> vy (res s))"
  using slice_get_Null_iff [of s p] slice_oob_iff [of s p] by simp

lemma slice_get_in_bounds:
  "start (root s) = Addr a \<Longrightarrow> \<not> slice_oob s p \<Longrightarrow>
   slice_get s p = Addr (a + flatten p (res s))"
  by (simp add: slice_get_def)

lemmas node_get_unfold =
  node_get_def ivec2_div_scalar_def ivec2_div_def c_div_def ivec2_sub_def wrap32_def
  slice_get_def slice_oob_def flatten_def

text \<open>
  Claim C7. \<open>Slice.get\<close> sends an in-bounds point \<open>p\<close> to the cell at linear offset
  \<open>p.x * res.y + p.y\<close> from the backing pointer. For the tile at \<open>pos = (0,0)\<close> with
  \<open>res = (4,4)\<close>, \<open>scale = 1\<close> and a slice of 16 cells at address \<open>b\<close>: \<open>get((2,3))\<close> is the
  pointer at offset 11, and \<open>get((4,0))\<close> and \<open>get((-1,0))\<close> are null.
\<close>

theorem slice_get_row_major:
  fixes s :: "'a slice_scheme" and b :: int and h :: ptr
  assumes "start (root s) = Addr a" and "\<not> slice_oob s p"
  defines "T \<equiv> \<lparr>node_pos = \<lparr>vx = 0, vy = 0\<rparr>, node_res = \<lparr>vx = 4, vy = 4\<rparr>, node_vertex = h,
                node_s = \<lparr>root = \<lparr>start = Addr b, bsize = 16\<rparr>,
                          res = \<lparr>vx = 4, vy = 4\<rparr>, scale = 1\<rparr>\<rparr>"
  shows "slice_get s p = Addr (a + (vx p * vy (res s) + vy p)) \<and>
         node_get T \<lparr>vx = 2, vy = 3\<rparr> = Inr (Addr (b + 11)) \<and>
         node_get T \<lparr>vx = 4, vy = 0\<rparr> = Inr Null \<and>
         node_get T \<lparr>vx = - 1, vy = 0\<rparr> = Inr Null"
proof -
  have "slice_get s p = Addr (a + (vx p * vy (res s) + vy p))"
    using assms(1,2) by (simp add: slice_get_in_bounds flatten_def)
  moreover have "node_get T \<lparr>vx = 2, vy = 3\<rparr> = Inr (Addr (b + 11))"
    by (simp add: T_def node_get_unfold)
  moreover have "node_get T \<lparr>vx = 4, vy = 0\<rparr> = Inr Null"
    by (simp add: T_def node_get_unfold)
  moreover have "node_get T \<lparr>vx = - 1, vy = 0\<rparr> = Inr Null"
    by (simp add: T_def node_get_unfold)
  ultimately show ?thesis by simp
qed

theorem slice_get_row_major_witness:
  "slice_get \<lparr>root = \<lparr>start = Addr 1000, bsize = 16\<rparr>, res = \<lparr>vx = 4, vy = 4\<rparr>\<rparr>
     \<lparr>vx = 2, vy = 3\<rparr> = Addr 1011"
proof -
  let ?s = "\<lparr>root = \<lparr>start = Addr 1000, bsize = 16\<rparr>, res = \<lparr>vx = 4, vy = 4\<rparr>\<rparr>"
  have h1: "start (root ?s) = Addr 1000" by simp
  have h2: "\<not> slice_oob ?s \<lparr>vx = 2, vy = 3\<rparr>" by (simp add: slice_oob_def)
  from slice_get_row_major [OF h1 h2] show ?thesis by simp
qed

section \<open>The arena\<close>

lemma pool_get_start:
  assumes "\<forall>f \<in> set (free P). start f \<noteq> Null"
  shows "\<forall>f \<in> set (free (snd (pool_get P n))). start f \<noteq> Null"
  using assms by (auto simp: pool_get_def ptr_add_not_Null split: list.splits if_splits)

lemma pool_run_start:
  assumes "\<forall>f \<in> set (free P). start f \<noteq> Null"
  shows "\<forall>f \<in> set (free (pool_run P cs)). start f \<noteq> Null"
  using assms
proof (induction P cs rule: pool_run.induct)
  case (1 P)
  then show ?case by simp
next
  case (2 P a n cs)
  then show ?case by (simp add: reserve_def Let_def)
next
  case (3 P n cs)
  from pool_get_start [OF "3.prems"] show ?case by (simp add: "3.IH")
qed

lemma pool_run_empty_start:
  "\<forall>f \<in> set (free (pool_run pool_empty cs)). start f \<noteq> Null"
  by (rule pool_run_start) (simp add: pool_empty_def)

lemma pool_new_run: "pool_new a C = pool_run pool_empty [Reserve a C]"
  by (simp add: pool_new_def)

lemma pool_new_eq:
  "pool_new a C =
     \<lparr>pool_root = \<lparr>start = Addr a, bsize = C\<rparr>, free = [\<lparr>start = Addr a, bsize = C\<rparr>]\<rparr>"
  by (simp add: pool_new_def reserve_def pool_empty_def Let_def)

text \<open>
  Claim C2. On a pool built by any sequence \<open>cs\<close> of \<open>reserve\<close> and \<open>get\<close> calls from a
  default-constructed one, \<open>get(n)\<close> returns \<^verbatim>\<open>{NULL, 0}\<close>
  exactly when the free queue is empty, or \<open>n\<close> exceeds the capacity, or \<open>n\<close> exceeds the
  length of the front free region; a failed call leaves the pool, and so its free region,
  as it was. On a pool of capacity 100 at address \<open>a\<close>, the requests 40, 50, 20 return
  the ranges at offsets 0 and 40 and then the empty buffer, and 10 cells remain free.
\<close>

theorem pool_get_fails_iff:
  assumes "P = pool_run pool_empty cs"
  shows "(fst (pool_get P n) = null_buf) =
           (free P = [] \<or> bsize (pool_root P) < n \<or> bsize (hd (free P)) < n) \<and>
         (fst (pool_get P n) = null_buf \<longrightarrow> snd (pool_get P n) = P) \<and>
         pool_gets (pool_new a 100) [40, 50, 20] =
           ([\<lparr>start = Addr a, bsize = 40\<rparr>, \<lparr>start = Addr (a + 40), bsize = 50\<rparr>, null_buf],
            \<lparr>pool_root = \<lparr>start = Addr a, bsize = 100\<rparr>,
             free = [\<lparr>start = Addr (a + 90), bsize = 10\<rparr>]\<rparr>)"
proof -
  have iff: "(fst (pool_get P n) = null_buf) =
           (free P = [] \<or> bsize (pool_root P) < n \<or> bsize (hd (free P)) < n)"
  proof (cases "free P")
    case Nil
    then show ?thesis by (simp add: pool_get_def)
  next
    case (Cons f fs)
    with pool_run_empty_start [of cs] assms have "start f \<noteq> Null" by simp
    with Cons show ?thesis by (auto simp: pool_get_def null_buf_def)
  qed
  have same: "fst (pool_get P n) = null_buf \<longrightarrow> snd (pool_get P n) = P"
  proof (cases "free P")
    case Nil
    then show ?thesis by (simp add: pool_get_def)
  next
    case (Cons f fs)
    with pool_run_empty_start [of cs] assms have "start f \<noteq> Null" by simp
    with Cons show ?thesis by (auto simp: pool_get_def null_buf_def)
  qed
  have run: "pool_gets (pool_new a 100) [40, 50, 20] =
           ([\<lparr>start = Addr a, bsize = 40\<rparr>, \<lparr>start = Addr (a + 40), bsize = 50\<rparr>, null_buf],
            \<lparr>pool_root = \<lparr>start = Addr a, bsize = 100\<rparr>,
             free = [\<lparr>start = Addr (a + 90), bsize = 10\<rparr>]\<rparr>)"
    by (simp add: pool_new_eq pool_get_def)
  from iff same run show ?thesis by simp
qed

theorem pool_get_fails_iff_witness:
  "fst (pool_get (pool_new 0 100) 120) = null_buf \<and>
   snd (pool_get (pool_new 0 100) 120) = pool_new 0 100 \<and>
   fst (pool_get (pool_new 0 100) 40) \<noteq> null_buf"
proof -
  have r: "pool_new 0 100 = pool_run pool_empty [Reserve 0 100]" by (rule pool_new_run)
  have big: "bsize (pool_root (pool_new 0 100)) < 120" by (simp add: pool_new_eq)
  have fits: "\<not> (free (pool_new 0 100) = [] \<or> bsize (pool_root (pool_new 0 100)) < 40 \<or>
                 bsize (hd (free (pool_new 0 100))) < 40)"
    by (simp add: pool_new_eq)
  from pool_get_fails_iff [where P = "pool_new 0 100" and n = 120 and a = 0, OF r] big
  have "fst (pool_get (pool_new 0 100) 120) = null_buf \<and>
        snd (pool_get (pool_new 0 100) 120) = pool_new 0 100"
    by blast
  moreover from pool_get_fails_iff [where P = "pool_new 0 100" and n = 40 and a = 0, OF r] fits
  have "fst (pool_get (pool_new 0 100) 40) \<noteq> null_buf"
    by blast
  ultimately show ?thesis by simp
qed

lemma pool_gets_issued:
  assumes "free P = \<lparr>start = Addr b, bsize = m\<rparr> # fs"
    and "m \<le> bsize (pool_root P)" and "sum_list ns \<le> m"
  shows "pool_gets P ns =
           (issued b ns,
            P\<lparr>free := \<lparr>start = Addr (b + int (sum_list ns)), bsize = m - sum_list ns\<rparr> # fs\<rparr>)"
  using assms
proof (induction ns arbitrary: P b m)
  case Nil
  then show ?case by simp
next
  case (Cons n ns)
  let ?P' = "P\<lparr>free := \<lparr>start = Addr (b + int n), bsize = m - n\<rparr> # fs\<rparr>"
  from Cons.prems have g: "pool_get P n = (\<lparr>start = Addr b, bsize = n\<rparr>, ?P')"
    by (simp add: pool_get_def)
  have "pool_gets ?P' ns =
          (issued (b + int n) ns,
           ?P'\<lparr>free := \<lparr>start = Addr (b + int n + int (sum_list ns)),
                          bsize = m - n - sum_list ns\<rparr> # fs\<rparr>)"
    using Cons.prems by (intro Cons.IH) simp_all
  with g show ?case by (simp add: add.assoc)
qed

lemma length_issued: "length (issued b ns) = length ns"
  by (induction ns arbitrary: b) simp_all

lemma issued_nth:
  "i < length ns \<Longrightarrow>
   issued b ns ! i = \<lparr>start = Addr (b + int (sum_list (take i ns))), bsize = ns ! i\<rparr>"
proof (induction ns arbitrary: b i)
  case Nil
  then show ?case by simp
next
  case (Cons n ns)
  then show ?case by (cases i) (simp_all add: add.assoc)
qed

lemma cells_issued: "\<Union> (cells ` set (issued b ns)) = {b ..< b + int (sum_list ns)}"
proof (induction ns arbitrary: b)
  case Nil
  then show ?case by simp
next
  case (Cons n ns)
  have "{b ..< b + int n} \<union> {b + int n ..< b + int n + int (sum_list ns)}
        = {b ..< b + int n + int (sum_list ns)}"
    by auto
  with Cons show ?case by (simp add: cells_def add.assoc)
qed

lemma issued_take: "issued b (take k ns) = take k (issued b ns)"
proof (induction ns arbitrary: b k)
  case Nil
  then show ?case by simp
next
  case (Cons n ns)
  then show ?case by (cases k) simp_all
qed

lemma sum_list_take_mono:
  fixes ns :: "nat list"
  assumes "i \<le> j"
  shows "sum_list (take i ns) \<le> sum_list (take j ns)"
proof -
  from assms have "take j ns = take i ns @ take (j - i) (drop i ns)"
    by (metis le_add_diff_inverse take_add)
  then show ?thesis by simp
qed

lemma sum_list_take_Suc:
  fixes ns :: "nat list"
  assumes "i < length ns"
  shows "sum_list (take (Suc i) ns) = sum_list (take i ns) + ns ! i"
  using assms by (simp add: take_Suc_conv_app_nth)

lemma issued_disjoint:
  assumes "i < j" and "j < length ns"
  shows "cells (issued b ns ! i) \<inter> cells (issued b ns ! j) = {}"
proof -
  from assms have i: "i < length ns" by simp
  have "sum_list (take (Suc i) ns) \<le> sum_list (take j ns)"
    using assms by (intro sum_list_take_mono) simp
  then have "sum_list (take i ns) + ns ! i \<le> sum_list (take j ns)"
    using i by (simp add: sum_list_take_Suc)
  then show ?thesis
    using assms i by (auto simp: issued_nth cells_def)
qed

text \<open>
  Claim C1. Take a pool constructed with capacity \<open>C\<close> at address \<open>a\<close> and a sequence of
  \<open>get\<close> calls whose running sum of sizes never exceeds \<open>C\<close>. Then every call succeeds:
  call \<open>i\<close> returns the non-null buffer of exactly the requested length that starts where
  the buffer of call \<open>i - 1\<close> ended, the first at \<open>a\<close>. The issued ranges are pairwise
  disjoint, one free region remains, the issued ranges and the free region together are
  \<open>[a, a + C)\<close> and do not overlap, the backing allocation stays where it is, and the
  buffers that the first \<open>k\<close> calls returned are those that the same calls return when
  no further call follows.
\<close>

theorem arena_allocate_sequence:
  assumes "\<forall>k \<le> length ns. sum_list (take k ns) \<le> C"
    and "pool_gets (pool_new a C) ns = (bs, P)"
  shows "length bs = length ns \<and>
         (\<forall>i < length ns.
            bs ! i = \<lparr>start = Addr (a + int (sum_list (take i ns))), bsize = ns ! i\<rparr>) \<and>
         (\<forall>i j. i < j \<and> j < length ns \<longrightarrow> cells (bs ! i) \<inter> cells (bs ! j) = {}) \<and>
         free P = [\<lparr>start = Addr (a + int (sum_list ns)), bsize = C - sum_list ns\<rparr>] \<and>
         \<Union> (cells ` set bs) \<union> \<Union> (cells ` set (free P)) = {a ..< a + int C} \<and>
         \<Union> (cells ` set bs) \<inter> \<Union> (cells ` set (free P)) = {} \<and>
         pool_root P = pool_root (pool_new a C) \<and>
         (\<forall>k \<le> length ns. fst (pool_gets (pool_new a C) (take k ns)) = take k bs)"
proof -
  let ?P0 = "pool_new a C"
  have total: "sum_list ns \<le> C"
    using assms(1) by (metis order_refl take_all)
  have closed: "pool_gets ?P0 ms =
      (issued a ms,
       ?P0\<lparr>free := [\<lparr>start = Addr (a + int (sum_list ms)), bsize = C - sum_list ms\<rparr>]\<rparr>)"
    if "sum_list ms \<le> C" for ms
    using that by (intro pool_gets_issued) (simp_all add: pool_new_eq)
  from closed [OF total] assms(2)
  have bs: "bs = issued a ns"
    and P: "P = ?P0\<lparr>free := [\<lparr>start = Addr (a + int (sum_list ns)), bsize = C - sum_list ns\<rparr>]\<rparr>"
    by simp_all
  have c1: "length bs = length ns"
    by (simp add: bs length_issued)
  have c2: "\<forall>i < length ns.
            bs ! i = \<lparr>start = Addr (a + int (sum_list (take i ns))), bsize = ns ! i\<rparr>"
    by (simp add: bs issued_nth)
  have c3: "\<forall>i j. i < j \<and> j < length ns \<longrightarrow> cells (bs ! i) \<inter> cells (bs ! j) = {}"
    by (simp add: bs issued_disjoint)
  have c4: "free P = [\<lparr>start = Addr (a + int (sum_list ns)), bsize = C - sum_list ns\<rparr>]"
    by (simp add: P)
  have fr: "\<Union> (cells ` set (free P)) = {a + int (sum_list ns) ..< a + int C}"
    using total by (simp add: c4 cells_def)
  have us: "\<Union> (cells ` set bs) = {a ..< a + int (sum_list ns)}"
    by (simp add: bs cells_issued)
  have c5: "\<Union> (cells ` set bs) \<union> \<Union> (cells ` set (free P)) = {a ..< a + int C}"
    unfolding fr us using total by auto
  have c6: "\<Union> (cells ` set bs) \<inter> \<Union> (cells ` set (free P)) = {}"
    unfolding fr us by auto
  have c7: "pool_root P = pool_root ?P0"
    by (simp add: P)
  have c8: "\<forall>k \<le> length ns. fst (pool_gets ?P0 (take k ns)) = take k bs"
  proof (intro allI impI)
    fix k assume "k \<le> length ns"
    with assms(1) have "sum_list (take k ns) \<le> C" by simp
    from closed [OF this] show "fst (pool_gets ?P0 (take k ns)) = take k bs"
      by (simp add: bs issued_take)
  qed
  from c1 c2 c3 c4 c5 c6 c7 c8 show ?thesis by blast
qed

theorem arena_allocate_sequence_witness:
  "sum_list [40, 50 :: nat] \<le> 100 \<and>
   fst (pool_gets (pool_new 0 100) [40, 50]) ! 1 = \<lparr>start = Addr 40, bsize = 50\<rparr> \<and>
   free (snd (pool_gets (pool_new 0 100) [40, 50])) = [\<lparr>start = Addr 90, bsize = 10\<rparr>] \<and>
   cells (fst (pool_gets (pool_new 0 100) [40, 50]) ! 0) \<inter>
     cells (fst (pool_gets (pool_new 0 100) [40, 50]) ! 1) = {}"
proof -
  let ?r = "pool_gets (pool_new 0 100) [40, 50]"
  have h1: "\<forall>k \<le> length [40, 50 :: nat]. sum_list (take k [40, 50 :: nat]) \<le> 100"
    by (auto simp: le_Suc_eq)
  have h2: "?r = (fst ?r, snd ?r)" by simp
  have i1: "(1 :: nat) < length [40, 50 :: nat]" and i01: "(0 :: nat) < 1 \<and> (1 :: nat) < length [40, 50 :: nat]"
    by simp_all
  note th = arena_allocate_sequence [OF h1 h2]
  note nth = th [THEN conjunct2, THEN conjunct1, rule_format]
  note disj = th [THEN conjunct2, THEN conjunct2, THEN conjunct1, rule_format]
  note rest = th [THEN conjunct2, THEN conjunct2, THEN conjunct2, THEN conjunct1]
  have a: "fst ?r ! 1 = \<lparr>start = Addr 40, bsize = 50\<rparr>"
    using nth [OF i1] by simp
  have b: "free (snd ?r) = [\<lparr>start = Addr 90, bsize = 10\<rparr>]"
    using rest by simp
  have c: "cells (fst ?r ! 0) \<inter> cells (fst ?r ! 1) = {}"
    using disj [OF i01] by simp
  from a b c show ?thesis by simp
qed

section \<open>Tiles\<close>

lemma sdiv_nonneg:
  fixes a b :: int
  assumes "0 \<le> a" and "0 < b"
  shows "a sdiv b = a div b"
  using assms by (simp add: signed_divide_int_def sgn_if)

lemma sdiv_small_negative:
  fixes a b :: int
  assumes "- b < a" and "a < 0"
  shows "a sdiv b = 0"
proof -
  from assms have "\<bar>a\<bar> < \<bar>b\<bar>" by simp
  then have "\<bar>a\<bar> div \<bar>b\<bar> = 0" by (simp add: div_pos_pos_trivial)
  then show ?thesis by (simp add: signed_divide_int_def)
qed

lemma ivec2_div_scalar_eq:
  "ivec2_div_scalar p k =
     (if k = 0 then Inl DivisionByZero
      else if k = - 1 \<and> (vx p = - (2 ^ 31) \<or> vy p = - (2 ^ 31)) then Inl DivisionOverflow
      else Inr \<lparr>vx = vx p sdiv k, vy = vy p sdiv k\<rparr>)"
  by (simp add: ivec2_div_scalar_def ivec2_div_def c_div_def)

lemma ivec2_div_scalar_pos:
  "0 < k \<Longrightarrow> ivec2_div_scalar p k = Inr \<lparr>vx = vx p sdiv k, vy = vy p sdiv k\<rparr>"
  by (simp add: ivec2_div_scalar_eq)

lemma ivec2_div_eq:
  "0 < vx q \<Longrightarrow> 0 < vy q \<Longrightarrow>
   ivec2_div p q = Inr \<lparr>vx = vx p sdiv vx q, vy = vy p sdiv vy q\<rparr>"
  by (simp add: ivec2_div_def c_div_def)

lemma levelsize_pos: "0 < levelsize"
  by (simp add: levelsize_def)

text \<open>
  Claim C6. For every world point \<open>p\<close> and every tile \<open>T\<close>, \<open>T.get(p)\<close> is
  \<open>T.s.get((p - T.pos) / T.scale)\<close> and \<open>T.oob(p)\<close> is \<open>T.s.oob((p - T.pos) / T.scale)\<close>.
  Written out: both components of \<open>p - T.pos\<close> are taken in 32-bit arithmetic and divided
  by the tile's scale, the quotient truncated towards zero, and the slice is asked at the
  point of the two quotients; \<open>get\<close> and \<open>oob\<close> trap where the division does, on a scale of
  zero and on a component \<open>- 2 ^ 31\<close> under the scale \<open>- 1\<close>. In the revision with the
  fixed arrangement of tiles the divisor is the constant \<open>levelsize = 2\<close>, and nothing
  traps.
\<close>

theorem node_get_forwards:
  "node_get T p =
     (if scale (node_s T) = 0 then Inl DivisionByZero
      else if scale (node_s T) = - 1 \<and>
              (wrap32 (vx p - vx (node_pos T)) = - (2 ^ 31) \<or>
               wrap32 (vy p - vy (node_pos T)) = - (2 ^ 31))
      then Inl DivisionOverflow
      else Inr (slice_get (node_s T)
             \<lparr>vx = wrap32 (vx p - vx (node_pos T)) sdiv scale (node_s T),
              vy = wrap32 (vy p - vy (node_pos T)) sdiv scale (node_s T)\<rparr>)) \<and>
   node_oob T p =
     (if scale (node_s T) = 0 then Inl DivisionByZero
      else if scale (node_s T) = - 1 \<and>
              (wrap32 (vx p - vx (node_pos T)) = - (2 ^ 31) \<or>
               wrap32 (vy p - vy (node_pos T)) = - (2 ^ 31))
      then Inl DivisionOverflow
      else Inr (slice_oob (node_s T)
             \<lparr>vx = wrap32 (vx p - vx (node_pos T)) sdiv scale (node_s T),
              vy = wrap32 (vy p - vy (node_pos T)) sdiv scale (node_s T)\<rparr>)) \<and>
   quad_node_get Q p =
     Inr (slice_get (qnode_s Q)
           \<lparr>vx = wrap32 (vx p - vx (qnode_pos Q)) sdiv 2,
            vy = wrap32 (vy p - vy (qnode_pos Q)) sdiv 2\<rparr>) \<and>
   quad_node_oob Q p =
     Inr (slice_oob (qnode_s Q)
           \<lparr>vx = wrap32 (vx p - vx (qnode_pos Q)) sdiv 2,
            vy = wrap32 (vy p - vy (qnode_pos Q)) sdiv 2\<rparr>)"
proof -
  have a: "node_get T p =
     (if scale (node_s T) = 0 then Inl DivisionByZero
      else if scale (node_s T) = - 1 \<and>
              (wrap32 (vx p - vx (node_pos T)) = - (2 ^ 31) \<or>
               wrap32 (vy p - vy (node_pos T)) = - (2 ^ 31))
      then Inl DivisionOverflow
      else Inr (slice_get (node_s T)
             \<lparr>vx = wrap32 (vx p - vx (node_pos T)) sdiv scale (node_s T),
              vy = wrap32 (vy p - vy (node_pos T)) sdiv scale (node_s T)\<rparr>))"
    by (simp add: node_get_def ivec2_div_scalar_eq ivec2_sub_def)
  have b: "node_oob T p =
     (if scale (node_s T) = 0 then Inl DivisionByZero
      else if scale (node_s T) = - 1 \<and>
              (wrap32 (vx p - vx (node_pos T)) = - (2 ^ 31) \<or>
               wrap32 (vy p - vy (node_pos T)) = - (2 ^ 31))
      then Inl DivisionOverflow
      else Inr (slice_oob (node_s T)
             \<lparr>vx = wrap32 (vx p - vx (node_pos T)) sdiv scale (node_s T),
              vy = wrap32 (vy p - vy (node_pos T)) sdiv scale (node_s T)\<rparr>))"
    by (simp add: node_oob_def ivec2_div_scalar_eq ivec2_sub_def)
  have c: "quad_node_get Q p =
     Inr (slice_get (qnode_s Q)
           \<lparr>vx = wrap32 (vx p - vx (qnode_pos Q)) sdiv 2,
            vy = wrap32 (vy p - vy (qnode_pos Q)) sdiv 2\<rparr>)"
    by (simp add: quad_node_get_def ivec2_div_scalar_eq ivec2_sub_def levelsize_def)
  have d: "quad_node_oob Q p =
     Inr (slice_oob (qnode_s Q)
           \<lparr>vx = wrap32 (vx p - vx (qnode_pos Q)) sdiv 2,
            vy = wrap32 (vy p - vy (qnode_pos Q)) sdiv 2\<rparr>)"
    by (simp add: quad_node_oob_def ivec2_div_scalar_eq ivec2_sub_def levelsize_def)
  from a b c d show ?thesis by (intro conjI)
qed

theorem node_get_forwards_witness:
  "node_get \<lparr>node_pos = \<lparr>vx = 8, vy = 8\<rparr>, node_res = \<lparr>vx = 8, vy = 8\<rparr>, node_vertex = Null,
             node_s = \<lparr>root = \<lparr>start = Addr 100, bsize = 16\<rparr>,
                       res = \<lparr>vx = 4, vy = 4\<rparr>, scale = 2\<rparr>\<rparr>
     \<lparr>vx = 13, vy = 10\<rparr> =
   Inr (slice_get \<lparr>root = \<lparr>start = Addr 100, bsize = 16\<rparr>, res = \<lparr>vx = 4, vy = 4\<rparr>, scale = 2\<rparr>
          \<lparr>vx = 2, vy = 1\<rparr>) \<and>
   node_get \<lparr>node_pos = \<lparr>vx = 1, vy = 0\<rparr>, node_res = \<lparr>vx = 8, vy = 8\<rparr>, node_vertex = Null,
             node_s = \<lparr>root = \<lparr>start = Addr 100, bsize = 16\<rparr>,
                       res = \<lparr>vx = 4, vy = 4\<rparr>, scale = 1073741824\<rparr>\<rparr>
     \<lparr>vx = - 2147483648, vy = 0\<rparr> = Inr (Addr 104) \<and>
   node_oob \<lparr>node_pos = \<lparr>vx = 0, vy = 0\<rparr>, node_res = \<lparr>vx = 8, vy = 8\<rparr>, node_vertex = Null,
             node_s = \<lparr>root = \<lparr>start = Addr 100, bsize = 16\<rparr>,
                       res = \<lparr>vx = 4, vy = 4\<rparr>, scale = - 1\<rparr>\<rparr>
     \<lparr>vx = - 2147483648, vy = 0\<rparr> = Inl DivisionOverflow"
proof -
  let ?T1 = "\<lparr>node_pos = \<lparr>vx = 8, vy = 8\<rparr>, node_res = \<lparr>vx = 8, vy = 8\<rparr>, node_vertex = Null,
             node_s = \<lparr>root = \<lparr>start = Addr 100, bsize = 16\<rparr>,
                       res = \<lparr>vx = 4, vy = 4\<rparr>, scale = 2\<rparr>\<rparr>"
  let ?T2 = "\<lparr>node_pos = \<lparr>vx = 1, vy = 0\<rparr>, node_res = \<lparr>vx = 8, vy = 8\<rparr>, node_vertex = Null,
             node_s = \<lparr>root = \<lparr>start = Addr 100, bsize = 16\<rparr>,
                       res = \<lparr>vx = 4, vy = 4\<rparr>, scale = 1073741824\<rparr>\<rparr>"
  let ?T3 = "\<lparr>node_pos = \<lparr>vx = 0, vy = 0\<rparr>, node_res = \<lparr>vx = 8, vy = 8\<rparr>, node_vertex = Null,
             node_s = \<lparr>root = \<lparr>start = Addr 100, bsize = 16\<rparr>,
                       res = \<lparr>vx = 4, vy = 4\<rparr>, scale = - 1\<rparr>\<rparr>"
  have a: "node_get ?T1 \<lparr>vx = 13, vy = 10\<rparr> =
      Inr (slice_get (node_s ?T1) \<lparr>vx = 2, vy = 1\<rparr>)"
    using node_get_forwards [of ?T1 "\<lparr>vx = 13, vy = 10\<rparr>", THEN conjunct1]
    by (simp add: wrap32_def)
  have b: "node_get ?T2 \<lparr>vx = - 2147483648, vy = 0\<rparr> = Inr (Addr 104)"
    using node_get_forwards [of ?T2 "\<lparr>vx = - 2147483648, vy = 0\<rparr>", THEN conjunct1]
    by (simp add: wrap32_def slice_get_def slice_oob_def flatten_def)
  have c: "node_oob ?T3 \<lparr>vx = - 2147483648, vy = 0\<rparr> = Inl DivisionOverflow"
    using node_get_forwards [of ?T3 "\<lparr>vx = - 2147483648, vy = 0\<rparr>", THEN conjunct2, THEN conjunct1]
    by (simp add: wrap32_def)
  from a b c show ?thesis by simp
qed

lemma local_x_zero:
  fixes s :: int
  assumes "2 \<le> s" and "in_int32 s" and "px - s < a" and "a < px"
  shows "wrap32 (a - px) sdiv s = 0"
proof -
  from assms have "in_int32 (a - px)" by (simp add: in_int32_def)
  then have "wrap32 (a - px) = a - px" by (rule wrap32_id)
  with assms show ?thesis by (simp add: sdiv_small_negative)
qed

lemma wrap32_zero: "wrap32 0 = 0"
  by (simp add: wrap32_def)

text \<open>
  Claim C9, as amended. The local coordinate is a quotient truncated towards zero, so a
  tile with scale \<open>s \<ge> 2\<close> takes the world points with \<open>T.pos.x - s < p.x < T.pos.x\<close>,
  which lie strictly outside its footprint, to local column 0. For such a point whose
  local \<open>y\<close> coordinate \<open>(p.y - T.pos.y) / s\<close> is in range, and a tile whose slice has at
  least one column: \<open>T.oob(p)\<close> is false, and \<open>T.get(p)\<close> is the cell of column 0 that the
  point \<open>(T.pos.x, p.y)\<close> on the tile's edge has. That pointer is null exactly when the
  tile's backing pointer is null. The same holds in the revision whose divisor is
  \<open>levelsize = 2\<close>, for \<open>p.x = pos.x - 1\<close>.
\<close>

theorem node_truncation_in_bounds:
  assumes "2 \<le> scale (node_s T)" and "in_int32 (scale (node_s T))"
    and "1 \<le> vx (res (node_s T))"
    and "vx (node_pos T) - scale (node_s T) < vx p" and "vx p < vx (node_pos T)"
    and "0 \<le> wrap32 (vy p - vy (node_pos T)) sdiv scale (node_s T)"
    and "wrap32 (vy p - vy (node_pos T)) sdiv scale (node_s T) < vy (res (node_s T))"
    and "1 \<le> vx (res (qnode_s Q))"
    and "vx (qnode_pos Q) - levelsize < vx q" and "vx q < vx (qnode_pos Q)"
    and "0 \<le> wrap32 (vy q - vy (qnode_pos Q)) sdiv levelsize"
    and "wrap32 (vy q - vy (qnode_pos Q)) sdiv levelsize < vy (res (qnode_s Q))"
  shows "node_oob T p = Inr False \<and>
         node_get T p =
           Inr (slice_get (node_s T)
                 \<lparr>vx = 0, vy = wrap32 (vy p - vy (node_pos T)) sdiv scale (node_s T)\<rparr>) \<and>
         node_get T p = node_get T \<lparr>vx = vx (node_pos T), vy = vy p\<rparr> \<and>
         (node_get T p = Inr Null) = (start (root (node_s T)) = Null) \<and>
         \<not> footprint (node_pos T) (node_res T) p \<and>
         quad_node_oob Q q = Inr False \<and>
         quad_node_get Q q = quad_node_get Q \<lparr>vx = vx (qnode_pos Q), vy = vy q\<rparr> \<and>
         (quad_node_get Q q = Inr Null) = (start (root (qnode_s Q)) = Null)"
proof -
  let ?s = "scale (node_s T)"
  let ?ly = "wrap32 (vy p - vy (node_pos T)) sdiv ?s"
  from assms(1) have pos: "0 < ?s" by simp
  have lx: "wrap32 (vx p - vx (node_pos T)) sdiv ?s = 0"
    using assms(1,2,4,5) by (rule local_x_zero)
  have inb: "\<not> slice_oob (node_s T) \<lparr>vx = 0, vy = ?ly\<rparr>"
    using assms(3,6,7) by (simp add: slice_oob_iff)
  have oob: "node_oob T p = Inr False"
    using pos lx inb by (simp add: node_oob_def ivec2_div_scalar_pos ivec2_sub_def)
  have get: "node_get T p = Inr (slice_get (node_s T) \<lparr>vx = 0, vy = ?ly\<rparr>)"
    using pos lx by (simp add: node_get_def ivec2_div_scalar_pos ivec2_sub_def)
  have edge: "node_get T \<lparr>vx = vx (node_pos T), vy = vy p\<rparr> =
                Inr (slice_get (node_s T) \<lparr>vx = 0, vy = ?ly\<rparr>)"
    using pos by (simp add: node_get_def ivec2_div_scalar_pos ivec2_sub_def wrap32_zero)
  have live: "(node_get T p = Inr Null) = (start (root (node_s T)) = Null)"
    using inb by (simp add: get slice_get_Null_iff)
  have out: "\<not> footprint (node_pos T) (node_res T) p"
    using assms(5) by (simp add: footprint_def)
  let ?qy = "wrap32 (vy q - vy (qnode_pos Q)) sdiv levelsize"
  have two: "(2 :: int) \<le> levelsize" and rep: "in_int32 levelsize"
    by (simp_all add: levelsize_def in_int32_def)
  have qx: "wrap32 (vx q - vx (qnode_pos Q)) sdiv levelsize = 0"
    using two rep assms(9,10) by (rule local_x_zero)
  have qinb: "\<not> slice_oob (qnode_s Q) \<lparr>vx = 0, vy = ?qy\<rparr>"
    using assms(8,11,12) by (simp add: slice_oob_iff)
  have qoob: "quad_node_oob Q q = Inr False"
    using levelsize_pos qx qinb
    by (simp add: quad_node_oob_def ivec2_div_scalar_pos ivec2_sub_def)
  have qget: "quad_node_get Q q = Inr (slice_get (qnode_s Q) \<lparr>vx = 0, vy = ?qy\<rparr>)"
    using levelsize_pos qx
    by (simp add: quad_node_get_def ivec2_div_scalar_pos ivec2_sub_def)
  have qedge: "quad_node_get Q \<lparr>vx = vx (qnode_pos Q), vy = vy q\<rparr> =
                 Inr (slice_get (qnode_s Q) \<lparr>vx = 0, vy = ?qy\<rparr>)"
    using levelsize_pos
    by (simp add: quad_node_get_def ivec2_div_scalar_pos ivec2_sub_def wrap32_zero)
  have qlive: "(quad_node_get Q q = Inr Null) = (start (root (qnode_s Q)) = Null)"
    using qinb by (simp add: qget slice_get_Null_iff)
  from oob get edge live out qoob qget qedge qlive show ?thesis by simp
qed

theorem node_truncation_in_bounds_witness:
  "node_oob
     \<lparr>node_pos = \<lparr>vx = 8, vy = 8\<rparr>, node_res = \<lparr>vx = 8, vy = 8\<rparr>, node_vertex = Null,
      node_s = \<lparr>root = \<lparr>start = Addr 100, bsize = 16\<rparr>, res = \<lparr>vx = 4, vy = 4\<rparr>, scale = 2\<rparr>\<rparr>
     \<lparr>vx = 7, vy = 10\<rparr> = Inr False \<and>
   node_get
     \<lparr>node_pos = \<lparr>vx = 8, vy = 8\<rparr>, node_res = \<lparr>vx = 8, vy = 8\<rparr>, node_vertex = Null,
      node_s = \<lparr>root = \<lparr>start = Addr 100, bsize = 16\<rparr>, res = \<lparr>vx = 4, vy = 4\<rparr>, scale = 2\<rparr>\<rparr>
     \<lparr>vx = 7, vy = 10\<rparr> = Inr (Addr 101) \<and>
   quad_node_oob
     \<lparr>qnode_pos = \<lparr>vx = 512, vy = 0\<rparr>, qnode_res = \<lparr>vx = 512, vy = 512\<rparr>, qnode_vertex = Null,
      qnode_s = \<lparr>root = \<lparr>start = Addr 0, bsize = 65536\<rparr>, res = \<lparr>vx = 256, vy = 256\<rparr>\<rparr>\<rparr>
     \<lparr>vx = 511, vy = 4\<rparr> = Inr False"
proof -
  let ?T = "\<lparr>node_pos = \<lparr>vx = 8, vy = 8\<rparr>, node_res = \<lparr>vx = 8, vy = 8\<rparr>, node_vertex = Null,
      node_s = \<lparr>root = \<lparr>start = Addr 100, bsize = 16\<rparr>, res = \<lparr>vx = 4, vy = 4\<rparr>, scale = 2\<rparr>\<rparr>"
  let ?p = "\<lparr>vx = 7, vy = 10\<rparr>"
  let ?Q = "\<lparr>qnode_pos = \<lparr>vx = 512, vy = 0\<rparr>, qnode_res = \<lparr>vx = 512, vy = 512\<rparr>,
      qnode_vertex = Null,
      qnode_s = \<lparr>root = \<lparr>start = Addr 0, bsize = 65536\<rparr>, res = \<lparr>vx = 256, vy = 256\<rparr>\<rparr>\<rparr>"
  let ?q = "\<lparr>vx = 511, vy = 4\<rparr>"
  have h1: "2 \<le> scale (node_s ?T)" by simp
  have h1': "in_int32 (scale (node_s ?T))" by (simp add: in_int32_def)
  have h2: "1 \<le> vx (res (node_s ?T))" by simp
  have h3: "vx (node_pos ?T) - scale (node_s ?T) < vx ?p" by simp
  have h4: "vx ?p < vx (node_pos ?T)" by simp
  have h5: "0 \<le> wrap32 (vy ?p - vy (node_pos ?T)) sdiv scale (node_s ?T)"
    by (simp add: wrap32_def)
  have h6: "wrap32 (vy ?p - vy (node_pos ?T)) sdiv scale (node_s ?T) < vy (res (node_s ?T))"
    by (simp add: wrap32_def)
  have h7: "1 \<le> vx (res (qnode_s ?Q))" by simp
  have h8: "vx (qnode_pos ?Q) - levelsize < vx ?q" by (simp add: levelsize_def)
  have h9: "vx ?q < vx (qnode_pos ?Q)" by simp
  have h10: "0 \<le> wrap32 (vy ?q - vy (qnode_pos ?Q)) sdiv levelsize"
    by (simp add: levelsize_def wrap32_def)
  have h11: "wrap32 (vy ?q - vy (qnode_pos ?Q)) sdiv levelsize < vy (res (qnode_s ?Q))"
    by (simp add: levelsize_def wrap32_def)
  note th = node_truncation_in_bounds [OF h1 h1' h2 h3 h4 h5 h6 h7 h8 h9 h10 h11]
  have a: "node_oob ?T ?p = Inr False" using th by (rule conjunct1)
  have "node_get ?T ?p = Inr (slice_get (node_s ?T)
          \<lparr>vx = 0, vy = wrap32 (vy ?p - vy (node_pos ?T)) sdiv scale (node_s ?T)\<rparr>)"
    using th [THEN conjunct2] by (rule conjunct1)
  then have b: "node_get ?T ?p = Inr (Addr 101)"
    by (simp add: slice_get_def slice_oob_def flatten_def wrap32_def)
  have "quad_node_oob ?Q ?q = Inr False \<and>
        quad_node_get ?Q ?q = quad_node_get ?Q \<lparr>vx = vx (qnode_pos ?Q), vy = vy ?q\<rparr> \<and>
        (quad_node_get ?Q ?q = Inr Null) = (start (root (qnode_s ?Q)) = Null)"
    using th [THEN conjunct2, THEN conjunct2, THEN conjunct2, THEN conjunct2]
    by (rule conjunct2)
  then have c: "quad_node_oob ?Q ?q = Inr False" by (rule conjunct1)
  from a b c show ?thesis by simp
qed

text \<open>Claim C9 as stated, for every tile with scale \<open>s \<ge> 2\<close>, fails on two tiles of scale 2
  at \<open>(8,8)\<close> and the point \<open>(7,10)\<close>, which has \<open>pos.x - s < p.x < pos.x\<close> and local \<open>y\<close>
  coordinate 1. The first tile has a 4 by 4 slice over the buffer \<^verbatim>\<open>{NULL, 0}\<close>: \<open>oob\<close> is
  false, and \<open>get\<close> is null, not a non-null pointer. The second has a slice of no column
  (\<open>res = (0,4)\<close>) over a live buffer: \<open>oob\<close> is true.\<close>

theorem node_truncation_in_bounds_counterexample:
  "node_oob
     \<lparr>node_pos = \<lparr>vx = 8, vy = 8\<rparr>, node_res = \<lparr>vx = 8, vy = 8\<rparr>, node_vertex = Null,
      node_s = \<lparr>root = null_buf, res = \<lparr>vx = 4, vy = 4\<rparr>, scale = 2\<rparr>\<rparr>
     \<lparr>vx = 7, vy = 10\<rparr> = Inr False \<and>
   node_get
     \<lparr>node_pos = \<lparr>vx = 8, vy = 8\<rparr>, node_res = \<lparr>vx = 8, vy = 8\<rparr>, node_vertex = Null,
      node_s = \<lparr>root = null_buf, res = \<lparr>vx = 4, vy = 4\<rparr>, scale = 2\<rparr>\<rparr>
     \<lparr>vx = 7, vy = 10\<rparr> = Inr Null \<and>
   node_oob
     \<lparr>node_pos = \<lparr>vx = 8, vy = 8\<rparr>, node_res = \<lparr>vx = 8, vy = 8\<rparr>, node_vertex = Null,
      node_s = \<lparr>root = \<lparr>start = Addr 100, bsize = 0\<rparr>, res = \<lparr>vx = 0, vy = 4\<rparr>, scale = 2\<rparr>\<rparr>
     \<lparr>vx = 7, vy = 10\<rparr> = Inr True"
  by (simp add: node_oob_def node_get_unfold null_buf_def signed_divide_int_def)

section \<open>The grid\<close>

lemma map_get_oob: "map_oob g p \<Longrightarrow> map_get W T g p = Inr NodeNull"
  by (simp add: map_get_def)

text \<open>
  Claim C10. A map to which no tile has been added has \<open>min = max = (0,0)\<close>; \<open>oob(p)\<close>
  is true and \<open>get(p)\<close> is null for every world point \<open>p\<close>.
\<close>

theorem empty_map_all_oob:
  "map_min quadmap_empty = \<lparr>vx = 0, vy = 0\<rparr> \<and>
   map_max quadmap_empty = \<lparr>vx = 0, vy = 0\<rparr> \<and>
   map_oob quadmap_empty p \<and>
   map_get W T quadmap_empty p = Inr NodeNull"
proof -
  have oob: "map_oob quadmap_empty p"
    by (simp add: map_oob_def quadmap_empty_def)
  from oob map_get_oob [OF oob] show ?thesis
    by (simp add: quadmap_empty_def)
qed

theorem empty_map_all_oob_witness:
  "map_oob quadmap_empty \<lparr>vx = 0, vy = 0\<rparr> \<and>
   map_get 512 2 quadmap_empty \<lparr>vx = 0, vy = 0\<rparr> = Inr NodeNull"
  using empty_map_all_oob [of "\<lparr>vx = 0, vy = 0\<rparr>" 512 2] by simp

lemma ivec2_min_assoc: "ivec2_min (ivec2_min a b) c = ivec2_min a (ivec2_min b c)"
  by (simp add: ivec2_min_def min.assoc)

lemma ivec2_max_assoc: "ivec2_max (ivec2_max a b) c = ivec2_max a (ivec2_max b c)"
  by (simp add: ivec2_max_def max.assoc)

lemma foldl_ivec2_min_seed:
  "foldl ivec2_min (ivec2_min z a) ps = ivec2_min z (foldl ivec2_min a ps)"
  by (induction ps arbitrary: a) (simp_all add: ivec2_min_assoc)

lemma foldl_ivec2_max_seed:
  "foldl ivec2_max (ivec2_max z a) ps = ivec2_max z (foldl ivec2_max a ps)"
  by (induction ps arbitrary: a) (simp_all add: ivec2_max_assoc)

lemma foldl_quadmap_add:
  "nodes (foldl quadmap_add g ts) = nodes g @ ts \<and>
   map_min (foldl quadmap_add g ts) = foldl ivec2_min (map_min g) (map node_pos ts) \<and>
   map_max (foldl quadmap_add g ts) =
     foldl ivec2_max (map_max g) (map (\<lambda>n. ivec2_add (node_pos n) (node_res n)) ts)"
  by (induction ts arbitrary: g) (simp_all add: quadmap_add_def)

lemma Min_insert_min:
  fixes a b :: int
  assumes "finite S"
  shows "Min (insert (min a b) S) = Min (insert a (insert b S))"
proof (cases "S = {}")
  case True
  then show ?thesis by simp
next
  case False
  with assms show ?thesis by (simp add: min.assoc)
qed

lemma Max_insert_max:
  fixes a b :: int
  assumes "finite S"
  shows "Max (insert (max a b) S) = Max (insert a (insert b S))"
proof (cases "S = {}")
  case True
  then show ?thesis by simp
next
  case False
  with assms show ?thesis by (simp add: max.assoc)
qed

lemma foldl_ivec2_min_Min:
  "vx (foldl ivec2_min m ps) = Min (insert (vx m) (vx ` set ps)) \<and>
   vy (foldl ivec2_min m ps) = Min (insert (vy m) (vy ` set ps))"
proof (induction ps arbitrary: m)
  case Nil
  then show ?case by simp
next
  case (Cons q ps)
  have "Min (insert (min (vx m) (vx q)) (vx ` set ps)) =
          Min (insert (vx m) (insert (vx q) (vx ` set ps)))"
    by (rule Min_insert_min) simp
  moreover have "Min (insert (min (vy m) (vy q)) (vy ` set ps)) =
          Min (insert (vy m) (insert (vy q) (vy ` set ps)))"
    by (rule Min_insert_min) simp
  ultimately show ?case
    using Cons.IH [of "ivec2_min m q"] by (simp add: ivec2_min_def)
qed

lemma foldl_ivec2_max_Max:
  "vx (foldl ivec2_max m ps) = Max (insert (vx m) (vx ` set ps)) \<and>
   vy (foldl ivec2_max m ps) = Max (insert (vy m) (vy ` set ps))"
proof (induction ps arbitrary: m)
  case Nil
  then show ?case by simp
next
  case (Cons q ps)
  have "Max (insert (max (vx m) (vx q)) (vx ` set ps)) =
          Max (insert (vx m) (insert (vx q) (vx ` set ps)))"
    by (rule Max_insert_max) simp
  moreover have "Max (insert (max (vy m) (vy q)) (vy ` set ps)) =
          Max (insert (vy m) (insert (vy q) (vy ` set ps)))"
    by (rule Max_insert_max) simp
  ultimately show ?case
    using Cons.IH [of "ivec2_max m q"] by (simp add: ivec2_max_def)
qed

lemma quadmap_adds_fields:
  "nodes (quadmap_adds ts) = ts"
  "map_min (quadmap_adds ts) = foldl ivec2_min \<lparr>vx = 0, vy = 0\<rparr> (map node_pos ts)"
  "map_max (quadmap_adds ts) =
     foldl ivec2_max \<lparr>vx = 0, vy = 0\<rparr> (map (\<lambda>n. ivec2_add (node_pos n) (node_res n)) ts)"
  using foldl_quadmap_add [of quadmap_empty ts]
  by (simp_all add: quadmap_adds_def quadmap_empty_def)

lemma quadmap_adds_Min_Max:
  "vx (map_min (quadmap_adds ts)) = Min (insert 0 ((\<lambda>n. vx (node_pos n)) ` set ts))"
  "vy (map_min (quadmap_adds ts)) = Min (insert 0 ((\<lambda>n. vy (node_pos n)) ` set ts))"
  "vx (map_max (quadmap_adds ts)) =
     Max (insert 0 ((\<lambda>n. wrap32 (vx (node_pos n) + vx (node_res n))) ` set ts))"
  "vy (map_max (quadmap_adds ts)) =
     Max (insert 0 ((\<lambda>n. wrap32 (vy (node_pos n) + vy (node_res n))) ` set ts))"
  using foldl_ivec2_min_Min [of "\<lparr>vx = 0, vy = 0\<rparr>" "map node_pos ts"]
    foldl_ivec2_max_Max [of "\<lparr>vx = 0, vy = 0\<rparr>"
      "map (\<lambda>n. ivec2_add (node_pos n) (node_res n)) ts"]
  by (simp_all add: quadmap_adds_fields image_image ivec2_add_def)

text \<open>Where no \<open>pos + res\<close> overflows, the sums are the exact ones.\<close>

lemma ivec2_add_far_corner:
  assumes "in_int32 (vx (far_corner n))" and "in_int32 (vy (far_corner n))"
  shows "ivec2_add (node_pos n) (node_res n) = far_corner n"
  using assms by (simp add: ivec2_add_def far_corner_def wrap32_id)

lemma quadmap_adds_max_exact:
  assumes "\<forall>n \<in> set ts. in_int32 (vx (far_corner n)) \<and> in_int32 (vy (far_corner n))"
  shows "map_max (quadmap_adds ts) = foldl ivec2_max \<lparr>vx = 0, vy = 0\<rparr> (map far_corner ts)"
proof -
  have eq: "map (\<lambda>n. ivec2_add (node_pos n) (node_res n)) ts = map far_corner ts"
    using assms by (simp add: ivec2_add_far_corner)
  show ?thesis unfolding quadmap_adds_fields(3) eq by (rule refl)
qed

lemma quadmap_adds_Max_exact:
  assumes "\<forall>n \<in> set ts. in_int32 (vx (far_corner n)) \<and> in_int32 (vy (far_corner n))"
  shows "vx (map_max (quadmap_adds ts)) =
           Max (insert 0 ((\<lambda>n. vx (node_pos n) + vx (node_res n)) ` set ts))"
    and "vy (map_max (quadmap_adds ts)) =
           Max (insert 0 ((\<lambda>n. vy (node_pos n) + vy (node_res n)) ` set ts))"
  using foldl_ivec2_max_Max [of "\<lparr>vx = 0, vy = 0\<rparr>" "map far_corner ts"]
  by (simp_all add: quadmap_adds_max_exact [OF assms] image_image far_corner_def)

text \<open>
  Claim C5, as amended. After any sequence of \<open>add\<close> calls on a default-constructed map,
  the map holds exactly the added tiles, in order; \<open>min\<close> is the componentwise minimum of
  \<open>(0,0)\<close> and the positions of the added tiles, and \<open>max\<close> is the componentwise maximum
  of \<open>(0,0)\<close> and \<open>pos + res\<close> of the added tiles, each sum as the 32-bit addition gives
  it. The initial value \<open>(0,0)\<close> of both bounds takes part in the minimum and the maximum.
  Where no \<open>pos + res\<close> overflows, \<open>max\<close> is the maximum of \<open>(0,0)\<close> and the maximum that
  the spec names.
\<close>

theorem quadmap_add_bounds:
  "nodes (quadmap_adds ts) = ts \<and>
   vx (map_min (quadmap_adds ts)) = Min (insert 0 ((\<lambda>n. vx (node_pos n)) ` set ts)) \<and>
   vy (map_min (quadmap_adds ts)) = Min (insert 0 ((\<lambda>n. vy (node_pos n)) ` set ts)) \<and>
   vx (map_max (quadmap_adds ts)) =
     Max (insert 0 ((\<lambda>n. wrap32 (vx (node_pos n) + vx (node_res n))) ` set ts)) \<and>
   vy (map_max (quadmap_adds ts)) =
     Max (insert 0 ((\<lambda>n. wrap32 (vy (node_pos n) + vy (node_res n))) ` set ts)) \<and>
   (ts \<noteq> [] \<longrightarrow> map_min (quadmap_adds ts) = ivec2_min \<lparr>vx = 0, vy = 0\<rparr> (spec_min ts)) \<and>
   (ts \<noteq> [] \<and>
    list_all (\<lambda>n. in_int32 (vx (far_corner n)) \<and> in_int32 (vy (far_corner n))) ts \<longrightarrow>
      map_max (quadmap_adds ts) = ivec2_max \<lparr>vx = 0, vy = 0\<rparr> (spec_max ts))"
proof -
  have mn: "map_min (quadmap_adds ts) = ivec2_min \<lparr>vx = 0, vy = 0\<rparr> (spec_min ts)"
    if "ts \<noteq> []"
  proof -
    from that obtain t ts' where ts: "ts = t # ts'" by (cases ts) auto
    show ?thesis
      by (simp add: ts quadmap_adds_fields spec_min_def foldl_ivec2_min_seed)
  qed
  have mx: "map_max (quadmap_adds ts) = ivec2_max \<lparr>vx = 0, vy = 0\<rparr> (spec_max ts)"
    if "ts \<noteq> [] \<and>
        list_all (\<lambda>n. in_int32 (vx (far_corner n)) \<and> in_int32 (vy (far_corner n))) ts"
  proof -
    from that obtain t ts' where ts: "ts = t # ts'" by (cases ts) auto
    from that
    have "\<forall>n \<in> set ts. in_int32 (vx (far_corner n)) \<and> in_int32 (vy (far_corner n))"
      by (simp add: list_all_iff)
    from quadmap_adds_max_exact [OF this] show ?thesis
      by (simp add: ts spec_max_def foldl_ivec2_max_seed)
  qed
  from mn mx show ?thesis
    by (simp add: quadmap_adds_fields(1) quadmap_adds_Min_Max)
qed

theorem quadmap_add_bounds_witness:
  "map_min (quadmap_adds
     [\<lparr>node_pos = \<lparr>vx = 10, vy = - 4\<rparr>, node_res = \<lparr>vx = 5, vy = 5\<rparr>, node_vertex = Null,
       node_s = \<lparr>root = null_buf, res = \<lparr>vx = 5, vy = 5\<rparr>, scale = 1\<rparr>\<rparr>]) = \<lparr>vx = 0, vy = - 4\<rparr> \<and>
   map_max (quadmap_adds
     [\<lparr>node_pos = \<lparr>vx = 10, vy = - 4\<rparr>, node_res = \<lparr>vx = 5, vy = 5\<rparr>, node_vertex = Null,
       node_s = \<lparr>root = null_buf, res = \<lparr>vx = 5, vy = 5\<rparr>, scale = 1\<rparr>\<rparr>]) = \<lparr>vx = 15, vy = 1\<rparr> \<and>
   vx (map_max (quadmap_adds
     [\<lparr>node_pos = \<lparr>vx = 2147483647, vy = 0\<rparr>, node_res = \<lparr>vx = 1, vy = 1\<rparr>, node_vertex = Null,
       node_s = \<lparr>root = null_buf, res = \<lparr>vx = 1, vy = 1\<rparr>, scale = 1\<rparr>\<rparr>])) = 0"
proof -
  let ?t = "\<lparr>node_pos = \<lparr>vx = 10, vy = - 4\<rparr>, node_res = \<lparr>vx = 5, vy = 5\<rparr>, node_vertex = Null,
       node_s = \<lparr>root = null_buf, res = \<lparr>vx = 5, vy = 5\<rparr>, scale = 1\<rparr>\<rparr>"
  let ?u = "\<lparr>node_pos = \<lparr>vx = 2147483647, vy = 0\<rparr>, node_res = \<lparr>vx = 1, vy = 1\<rparr>, node_vertex = Null,
       node_s = \<lparr>root = null_buf, res = \<lparr>vx = 1, vy = 1\<rparr>, scale = 1\<rparr>\<rparr>"
  have ne: "[?t] \<noteq> []" by simp
  have rng: "[?t] \<noteq> [] \<and>
      list_all (\<lambda>n. in_int32 (vx (far_corner n)) \<and> in_int32 (vy (far_corner n))) [?t]"
    by (simp add: far_corner_def in_int32_def)
  note th = quadmap_add_bounds [of "[?t]"]
  note mn = th [THEN conjunct2, THEN conjunct2, THEN conjunct2, THEN conjunct2,
      THEN conjunct2, THEN conjunct1, rule_format, OF ne]
  note mx = th [THEN conjunct2, THEN conjunct2, THEN conjunct2, THEN conjunct2,
      THEN conjunct2, THEN conjunct2, rule_format, OF rng]
  have a: "map_min (quadmap_adds [?t]) = \<lparr>vx = 0, vy = - 4\<rparr>"
    using mn by (simp add: spec_min_def ivec2_min_def)
  have b: "map_max (quadmap_adds [?t]) = \<lparr>vx = 15, vy = 1\<rparr>"
    using mx by (simp add: spec_max_def ivec2_max_def far_corner_def)
  note ov = quadmap_add_bounds [of "[?u]", THEN conjunct2, THEN conjunct2, THEN conjunct2,
      THEN conjunct1]
  have c: "vx (map_max (quadmap_adds [?u])) = 0"
    using ov by (simp add: wrap32_def)
  from a b c show ?thesis by simp
qed

text \<open>Claim C5 as the spec states it fails for one tile at \<open>(10,10)\<close> of extent \<open>(5,5)\<close>:
  \<open>min\<close> stays \<open>(0,0)\<close> and is not the position of the only tile. It fails for \<open>max\<close> on
  one tile at \<open>(-10,-10)\<close> of extent \<open>(5,5)\<close>: \<open>max\<close> stays \<open>(0,0)\<close> and is not \<open>(-5,-5)\<close>.\<close>

theorem quadmap_add_bounds_counterexample:
  "map_min (quadmap_adds
     [\<lparr>node_pos = \<lparr>vx = 10, vy = 10\<rparr>, node_res = \<lparr>vx = 5, vy = 5\<rparr>, node_vertex = Null,
       node_s = \<lparr>root = null_buf, res = \<lparr>vx = 5, vy = 5\<rparr>, scale = 1\<rparr>\<rparr>]) \<noteq>
   spec_min
     [\<lparr>node_pos = \<lparr>vx = 10, vy = 10\<rparr>, node_res = \<lparr>vx = 5, vy = 5\<rparr>, node_vertex = Null,
       node_s = \<lparr>root = null_buf, res = \<lparr>vx = 5, vy = 5\<rparr>, scale = 1\<rparr>\<rparr>] \<and>
   map_max (quadmap_adds
     [\<lparr>node_pos = \<lparr>vx = - 10, vy = - 10\<rparr>, node_res = \<lparr>vx = 5, vy = 5\<rparr>, node_vertex = Null,
       node_s = \<lparr>root = null_buf, res = \<lparr>vx = 5, vy = 5\<rparr>, scale = 1\<rparr>\<rparr>]) \<noteq>
   spec_max
     [\<lparr>node_pos = \<lparr>vx = - 10, vy = - 10\<rparr>, node_res = \<lparr>vx = 5, vy = 5\<rparr>, node_vertex = Null,
       node_s = \<lparr>root = null_buf, res = \<lparr>vx = 5, vy = 5\<rparr>, scale = 1\<rparr>\<rparr>]"
  by (simp add: quadmap_adds_def quadmap_add_def quadmap_empty_def spec_min_def spec_max_def
      ivec2_min_def ivec2_max_def ivec2_add_def far_corner_def wrap32_def)

lemma origin_gridD:
  assumes "origin_row_major_grid W T ts"
  shows "0 < W" and "0 < T" and "length ts = nat (T * T)"
    and "k < length ts \<Longrightarrow> node_pos (ts ! k) = \<lparr>vx = (int k div T) * W, vy = (int k mod T) * W\<rparr>"
    and "k < length ts \<Longrightarrow> node_res (ts ! k) = \<lparr>vx = W, vy = W\<rparr>"
  using assms by (simp_all add: origin_row_major_grid_def list_all_iff)

lemma slot_row_col:
  fixes T :: int
  assumes "0 < T" and "k < nat (T * T)"
  shows "0 \<le> int k div T" and "int k div T \<le> T - 1"
    and "0 \<le> int k mod T" and "int k mod T \<le> T - 1"
proof -
  from assms have lt: "int k < T * T" by simp
  show "0 \<le> int k div T" using assms(1) by (simp add: pos_imp_zdiv_nonneg_iff)
  have "int k div T * T + int k mod T = int k" by simp
  moreover have "0 \<le> int k mod T" using assms(1) by simp
  ultimately have "int k div T * T < T * T" using lt by linarith
  then have "int k div T < T"
    using assms(1) by (simp add: mult_less_cancel_right)
  then show "int k div T \<le> T - 1" by simp
  show "0 \<le> int k mod T" using assms(1) by simp
  have "int k mod T < T" using assms(1) by simp
  then show "int k mod T \<le> T - 1" by simp
qed

lemma div_in_cell:
  fixes W :: int
  assumes "0 < W" and "0 \<le> i" and "i * W \<le> a" and "a < i * W + W"
  shows "a sdiv W = i"
proof -
  from assms have nn: "0 \<le> a"
    by (meson mult_nonneg_nonneg order_less_imp_le order_trans)
  have "a div W = i"
    by (rule int_div_pos_eq [where r = "a - i * W"]) (use assms in \<open>simp_all add: mult.commute\<close>)
  with nn assms(1) show ?thesis by (simp add: sdiv_nonneg)
qed

lemma origin_grid_bounds:
  assumes "origin_row_major_grid W T ts" and "in_int32 (T * W)"
  shows "map_min (quadmap_adds ts) = \<lparr>vx = 0, vy = 0\<rparr>"
    and "map_max (quadmap_adds ts) = \<lparr>vx = T * W, vy = T * W\<rparr>"
proof -
  note g = origin_gridD [OF assms(1)]
  have elem: "\<exists>k < length ts. n = ts ! k" if "n \<in> set ts" for n
    using that by (metis in_set_conv_nth)
  have rc: "0 \<le> int k div T \<and> int k div T \<le> T - 1 \<and> 0 \<le> int k mod T \<and> int k mod T \<le> T - 1"
    if "k < length ts" for k
    using slot_row_col [OF g(2), of k] that g(3) by simp
  have posx: "0 \<le> vx (node_pos n) \<and> 0 \<le> vy (node_pos n)" if "n \<in> set ts" for n
  proof -
    from elem [OF that] obtain k where k: "k < length ts" "n = ts ! k" by blast
    with rc [OF k(1)] g(1) show ?thesis by (simp add: g(4))
  qed
  have upper: "vx (node_pos n) + vx (node_res n) \<le> T * W \<and>
               vy (node_pos n) + vy (node_res n) \<le> T * W" if "n \<in> set ts" for n
  proof -
    from elem [OF that] obtain k where k: "k < length ts" "n = ts ! k" by blast
    from rc [OF k(1)] g(1)
    have "(int k div T) * W \<le> (T - 1) * W" and "(int k mod T) * W \<le> (T - 1) * W"
      by (simp_all add: mult_right_mono)
    then have "(int k div T) * W + W \<le> T * W" and "(int k mod T) * W + W \<le> T * W"
      by (simp_all add: algebra_simps)
    with k show ?thesis by (simp add: g(4,5))
  qed
  define l where "l = nat (T * T) - 1"
  from g(2) have TT: "0 < T * T" by simp
  then have l: "l < length ts" by (simp add: g(3) l_def)
  have il: "int l = (T - 1) * T + (T - 1)"
    using TT by (simp add: l_def algebra_simps)
  have ldiv: "int l div T = T - 1"
    by (rule int_div_pos_eq [where r = "T - 1"]) (use g(2) il in \<open>simp_all add: mult.commute\<close>)
  have lmod: "int l mod T = T - 1"
    by (rule int_mod_pos_eq [where q = "T - 1"]) (use g(2) il in \<open>simp_all add: mult.commute\<close>)
  have last: "vx (node_pos (ts ! l)) + vx (node_res (ts ! l)) = T * W"
    "vy (node_pos (ts ! l)) + vy (node_res (ts ! l)) = T * W"
    using l by (simp_all add: g(4,5) ldiv lmod algebra_simps)
  have lin: "ts ! l \<in> set ts" using l by simp
  have minx: "Min (insert 0 ((\<lambda>n. vx (node_pos n)) ` set ts)) = 0"
    by (rule Min_eqI) (use posx in auto)
  have miny: "Min (insert 0 ((\<lambda>n. vy (node_pos n)) ` set ts)) = 0"
    by (rule Min_eqI) (use posx in auto)
  have TW: "0 \<le> T * W" using g(1,2) by simp
  have maxx: "Max (insert 0 ((\<lambda>n. vx (node_pos n) + vx (node_res n)) ` set ts)) = T * W"
  proof (rule Max_eqI)
    show "T * W \<in> insert 0 ((\<lambda>n. vx (node_pos n) + vx (node_res n)) ` set ts)"
      using lin last(1) by (metis (mono_tags, lifting) image_eqI insertI2)
  qed (use upper TW in auto)
  have maxy: "Max (insert 0 ((\<lambda>n. vy (node_pos n) + vy (node_res n)) ` set ts)) = T * W"
  proof (rule Max_eqI)
    show "T * W \<in> insert 0 ((\<lambda>n. vy (node_pos n) + vy (node_res n)) ` set ts)"
      using lin last(2) by (metis (mono_tags, lifting) image_eqI insertI2)
  qed (use upper TW in auto)
  have "vx (map_min (quadmap_adds ts)) = 0 \<and> vy (map_min (quadmap_adds ts)) = 0"
    by (simp add: quadmap_adds_Min_Max minx miny)
  then show "map_min (quadmap_adds ts) = \<lparr>vx = 0, vy = 0\<rparr>"
    by (cases "map_min (quadmap_adds ts)") simp
  have "\<forall>n \<in> set ts. in_int32 (vx (far_corner n)) \<and> in_int32 (vy (far_corner n))"
  proof
    fix n assume n: "n \<in> set ts"
    from posx [OF n] g(1) have "0 \<le> vx (node_pos n) + vx (node_res n)"
      and "0 \<le> vy (node_pos n) + vy (node_res n)"
      using elem [OF n] by (auto simp: g(5))
    with upper [OF n] assms(2)
    show "in_int32 (vx (far_corner n)) \<and> in_int32 (vy (far_corner n))"
      by (simp add: far_corner_def in_int32_def)
  qed
  note exact = quadmap_adds_Max_exact [OF this]
  have "vx (map_max (quadmap_adds ts)) = T * W \<and> vy (map_max (quadmap_adds ts)) = T * W"
    by (simp add: exact maxx maxy)
  then show "map_max (quadmap_adds ts) = \<lparr>vx = T * W, vy = T * W\<rparr>"
    by (cases "map_max (quadmap_adds ts)") simp
qed

lemma origin_grid_lookup:
  assumes "origin_row_major_grid W T ts" and "in_int32 (T * W)" and "k < length ts"
    and "footprint (node_pos (ts ! k)) (node_res (ts ! k)) p"
  shows "vx p sdiv W = int k div T" and "vy p sdiv W = int k mod T"
    and "\<not> map_oob (quadmap_adds ts) p"
proof -
  note g = origin_gridD [OF assms(1)]
  from assms(3) g(3) have k: "k < nat (T * T)" by simp
  note rc = slot_row_col [OF g(2) k]
  from assms(3,4)
  have fx: "(int k div T) * W \<le> vx p" "vx p < (int k div T) * W + W"
    and fy: "(int k mod T) * W \<le> vy p" "vy p < (int k mod T) * W + W"
    by (simp_all add: footprint_def g(4,5))
  show "vx p sdiv W = int k div T"
    using g(1) rc(1) fx by (rule div_in_cell)
  show "vy p sdiv W = int k mod T"
    using g(1) rc(3) fy by (rule div_in_cell)
  from rc(2,4) g(1)
  have "(int k div T) * W \<le> (T - 1) * W" and "(int k mod T) * W \<le> (T - 1) * W"
    by (simp_all add: mult_right_mono)
  then have up: "(int k div T) * W + W \<le> T * W" "(int k mod T) * W + W \<le> T * W"
    by (simp_all add: algebra_simps)
  from rc(1,3) g(1) have lo: "0 \<le> (int k div T) * W" "0 \<le> (int k mod T) * W"
    by simp_all
  from fx fy up lo show "\<not> map_oob (quadmap_adds ts) p"
    by (simp add: map_oob_def origin_grid_bounds [OF assms(1,2)])
qed

text \<open>The slot index \<open>(k div T) * T + k mod T\<close> is computed without overflow when
  \<open>T * T\<close> is an \<^verbatim>\<open>int\<close>.\<close>

lemma slot_index_wrap:
  fixes T :: int
  assumes "0 < T" and "in_int32 (T * T)" and "k < nat (T * T)"
  shows "wrap32 (wrap32 (int k div T * T) + int k mod T) = int k"
proof -
  note rc = slot_row_col [OF assms(1,3)]
  have split: "int k div T * T + int k mod T = int k" by simp
  from assms(3) have lt: "int k < T * T" by simp
  from rc(1) assms(1) have nn: "0 \<le> int k div T * T" by simp
  from split rc(3) have le: "int k div T * T \<le> int k" by linarith
  from nn le lt assms(2) have "in_int32 (int k div T * T)"
    by (simp add: in_int32_def)
  then have w1: "wrap32 (int k div T * T) = int k div T * T" by (rule wrap32_id)
  from lt assms(2) have "in_int32 (int k)" by (simp add: in_int32_def)
  then have "wrap32 (int k) = int k" by (rule wrap32_id)
  then show ?thesis by (simp only: w1 split)
qed

lemma quad_map_get_oob: "quad_map_oob p \<Longrightarrow> quad_map_get p = Inr NodeNull"
  by (simp add: quad_map_get_def)

lemma slot_cases:
  fixes i j :: int
  assumes "0 \<le> i \<and> i < mapsize \<and> 0 \<le> j \<and> j < mapsize"
  shows "(i = 0 \<or> i = 1) \<and> (j = 0 \<or> j = 1)"
  using assms by (auto simp: mapsize_def)

lemma quad_map_lookup:
  assumes "0 \<le> i \<and> i < mapsize \<and> 0 \<le> j \<and> j < mapsize"
    and "footprint \<lparr>vx = tilesize * i, vy = tilesize * j\<rparr> tileres p"
  shows "quad_map_get p = Inr (NodeAt (i * mapsize + j))"
proof -
  note ij = slot_cases [OF assms(1)]
  from assms(1) have i: "0 \<le> i" and j: "0 \<le> j" by simp_all
  from assms(2)
  have fx: "i * 512 \<le> vx p" "vx p < i * 512 + 512"
    and fy: "j * 512 \<le> vy p" "vy p < j * 512 + 512"
    by (simp_all add: footprint_def tileres_def tilesize_def mult.commute)
  have dx: "vx p sdiv 512 = i" using _ i fx by (rule div_in_cell) simp
  have dy: "vy p sdiv 512 = j" using _ j fy by (rule div_in_cell) simp
  from assms(1) fx fy have inside: "\<not> quad_map_oob p"
    by (simp add: quad_map_oob_def quad_size_def mapsize_def tilesize_def)
  from ij have ind: "wrap32 (wrap32 (i * mapsize) + j) = i * mapsize + j"
    by (auto simp: wrap32_def mapsize_def)
  from inside show ?thesis
    by (simp add: quad_map_get_def ivec2_div_eq tileres_def tilesize_def dx dy ind)
qed

text \<open>
  Claim C4, as amended. \<open>Grid.get(p)\<close> is null whenever \<open>p\<close> lies outside \<open>[min, max)\<close> in
  some component. Take a uniform grid of \<open>T * T\<close> tiles of extent \<open>W\<close> by \<open>W\<close> whose lattice
  starts at the origin and whose tiles were added in row-major order (slot \<open>i * T + j\<close>
  holds the tile at \<open>(i * W, j * W)\<close>), with \<open>T * W\<close> and \<open>T * T\<close> in the range of an
  \<^verbatim>\<open>int\<close>. Then every \<open>p\<close> in the footprint of the tile in slot \<open>k\<close> gets the non-null
  pointer to slot \<open>(p.x / W) * T + p.y / W\<close>, and that slot is \<open>k\<close>, which holds the only
  tile whose footprint contains \<open>p\<close>. The same holds for the fixed arrangement of
  \<^verbatim>\<open>quad::map\<close>, with \<open>tilesize\<close> and \<open>mapsize\<close> for \<open>W\<close> and \<open>T\<close>.
\<close>

theorem map_get_uniform_grid:
  assumes "origin_row_major_grid W T ts" and "in_int32 (T * W)" and "in_int32 (T * T)"
  shows "(\<forall>g p. (vx p < vx (map_min g) \<or> vy p < vy (map_min g) \<or>
                 vx (map_max g) \<le> vx p \<or> vy (map_max g) \<le> vy p) \<longrightarrow>
                map_get W T g p = Inr NodeNull) \<and>
         (\<forall>k p. k < length ts \<and> footprint (node_pos (ts ! k)) (node_res (ts ! k)) p \<longrightarrow>
                map_get W T (quadmap_adds ts) p = Inr (NodeAt (int k)) \<and>
                int k = (vx p sdiv W) * T + vy p sdiv W \<and>
                nodes (quadmap_adds ts) ! k = ts ! k \<and>
                (\<forall>k' < length ts.
                   footprint (node_pos (ts ! k')) (node_res (ts ! k')) p \<longrightarrow> k' = k)) \<and>
         (\<forall>p. (vx p < 0 \<or> vy p < 0 \<or> quad_size \<le> vx p \<or> quad_size \<le> vy p) \<longrightarrow>
              quad_map_get p = Inr NodeNull) \<and>
         (\<forall>i j p. 0 \<le> i \<and> i < mapsize \<and> 0 \<le> j \<and> j < mapsize \<and>
                  footprint \<lparr>vx = tilesize * i, vy = tilesize * j\<rparr> tileres p \<longrightarrow>
                  quad_map_get p = Inr (NodeAt (i * mapsize + j)))"
proof -
  note g = origin_gridD [OF assms(1)]
  have outside: "map_get W T g p = Inr NodeNull"
    if "vx p < vx (map_min g) \<or> vy p < vy (map_min g) \<or>
        vx (map_max g) \<le> vx p \<or> vy (map_max g) \<le> vy p" for g p
  proof -
    from that have "map_oob g p" by (auto simp: map_oob_def)
    then show ?thesis by (rule map_get_oob)
  qed
  have inside: "map_get W T (quadmap_adds ts) p = Inr (NodeAt (int k)) \<and>
                int k = (vx p sdiv W) * T + vy p sdiv W \<and>
                nodes (quadmap_adds ts) ! k = ts ! k \<and>
                (\<forall>k' < length ts.
                   footprint (node_pos (ts ! k')) (node_res (ts ! k')) p \<longrightarrow> k' = k)"
    if k: "k < length ts" and f: "footprint (node_pos (ts ! k)) (node_res (ts ! k)) p" for k p
  proof -
    note lk = origin_grid_lookup [OF assms(1,2) k f]
    have ind: "int k = (vx p sdiv W) * T + vy p sdiv W"
      by (simp add: lk(1,2))
    from k g(3) have "k < nat (T * T)" by simp
    from slot_index_wrap [OF g(2) assms(3) this]
    have wr: "wrap32 (wrap32 (vx p sdiv W * T) + vy p sdiv W) = int k"
      by (simp only: lk(1,2))
    from g(1) have "ivec2_div p \<lparr>vx = W, vy = W\<rparr> = Inr \<lparr>vx = vx p sdiv W, vy = vy p sdiv W\<rparr>"
      by (simp add: ivec2_div_eq)
    with lk(3) wr have get: "map_get W T (quadmap_adds ts) p = Inr (NodeAt (int k))"
      by (simp add: map_get_def)
    have uniq: "k' = k"
      if k': "k' < length ts" and f': "footprint (node_pos (ts ! k')) (node_res (ts ! k')) p"
      for k'
    proof -
      note lk' = origin_grid_lookup [OF assms(1,2) k' f']
      have "int k' = (vx p sdiv W) * T + vy p sdiv W"
        by (simp add: lk'(1,2))
      with ind show ?thesis by simp
    qed
    from get ind uniq show ?thesis by (simp add: quadmap_adds_fields(1))
  qed
  have qout: "quad_map_get p = Inr NodeNull"
    if "vx p < 0 \<or> vy p < 0 \<or> quad_size \<le> vx p \<or> quad_size \<le> vy p" for p
  proof -
    from that have "quad_map_oob p" by (auto simp: quad_map_oob_def)
    then show ?thesis by (rule quad_map_get_oob)
  qed
  have qin: "quad_map_get p = Inr (NodeAt (i * mapsize + j))"
    if "0 \<le> i \<and> i < mapsize \<and> 0 \<le> j \<and> j < mapsize \<and>
        footprint \<lparr>vx = tilesize * i, vy = tilesize * j\<rparr> tileres p" for i j p
    using that by (intro quad_map_lookup) simp_all
  from outside inside qout qin show ?thesis by blast
qed

theorem map_get_uniform_grid_witness:
  "origin_row_major_grid 4 2
     [\<lparr>node_pos = \<lparr>vx = 0, vy = 0\<rparr>, node_res = \<lparr>vx = 4, vy = 4\<rparr>, node_vertex = Null,
       node_s = \<lparr>root = \<lparr>start = Addr 0, bsize = 16\<rparr>, res = \<lparr>vx = 4, vy = 4\<rparr>, scale = 1\<rparr>\<rparr>,
      \<lparr>node_pos = \<lparr>vx = 0, vy = 4\<rparr>, node_res = \<lparr>vx = 4, vy = 4\<rparr>, node_vertex = Null,
       node_s = \<lparr>root = \<lparr>start = Addr 16, bsize = 16\<rparr>, res = \<lparr>vx = 4, vy = 4\<rparr>, scale = 1\<rparr>\<rparr>,
      \<lparr>node_pos = \<lparr>vx = 4, vy = 0\<rparr>, node_res = \<lparr>vx = 4, vy = 4\<rparr>, node_vertex = Null,
       node_s = \<lparr>root = \<lparr>start = Addr 32, bsize = 16\<rparr>, res = \<lparr>vx = 4, vy = 4\<rparr>, scale = 1\<rparr>\<rparr>,
      \<lparr>node_pos = \<lparr>vx = 4, vy = 4\<rparr>, node_res = \<lparr>vx = 4, vy = 4\<rparr>, node_vertex = Null,
       node_s = \<lparr>root = \<lparr>start = Addr 48, bsize = 16\<rparr>, res = \<lparr>vx = 4, vy = 4\<rparr>, scale = 1\<rparr>\<rparr>] \<and>
   map_get 4 2 (quadmap_adds
     [\<lparr>node_pos = \<lparr>vx = 0, vy = 0\<rparr>, node_res = \<lparr>vx = 4, vy = 4\<rparr>, node_vertex = Null,
       node_s = \<lparr>root = \<lparr>start = Addr 0, bsize = 16\<rparr>, res = \<lparr>vx = 4, vy = 4\<rparr>, scale = 1\<rparr>\<rparr>,
      \<lparr>node_pos = \<lparr>vx = 0, vy = 4\<rparr>, node_res = \<lparr>vx = 4, vy = 4\<rparr>, node_vertex = Null,
       node_s = \<lparr>root = \<lparr>start = Addr 16, bsize = 16\<rparr>, res = \<lparr>vx = 4, vy = 4\<rparr>, scale = 1\<rparr>\<rparr>,
      \<lparr>node_pos = \<lparr>vx = 4, vy = 0\<rparr>, node_res = \<lparr>vx = 4, vy = 4\<rparr>, node_vertex = Null,
       node_s = \<lparr>root = \<lparr>start = Addr 32, bsize = 16\<rparr>, res = \<lparr>vx = 4, vy = 4\<rparr>, scale = 1\<rparr>\<rparr>,
      \<lparr>node_pos = \<lparr>vx = 4, vy = 4\<rparr>, node_res = \<lparr>vx = 4, vy = 4\<rparr>, node_vertex = Null,
       node_s = \<lparr>root = \<lparr>start = Addr 48, bsize = 16\<rparr>, res = \<lparr>vx = 4, vy = 4\<rparr>, scale = 1\<rparr>\<rparr>]) \<lparr>vx = 5, vy = 2\<rparr> = Inr (NodeAt 2) \<and>
   map_get 4 2 (quadmap_adds
     [\<lparr>node_pos = \<lparr>vx = 0, vy = 0\<rparr>, node_res = \<lparr>vx = 4, vy = 4\<rparr>, node_vertex = Null,
       node_s = \<lparr>root = \<lparr>start = Addr 0, bsize = 16\<rparr>, res = \<lparr>vx = 4, vy = 4\<rparr>, scale = 1\<rparr>\<rparr>,
      \<lparr>node_pos = \<lparr>vx = 0, vy = 4\<rparr>, node_res = \<lparr>vx = 4, vy = 4\<rparr>, node_vertex = Null,
       node_s = \<lparr>root = \<lparr>start = Addr 16, bsize = 16\<rparr>, res = \<lparr>vx = 4, vy = 4\<rparr>, scale = 1\<rparr>\<rparr>,
      \<lparr>node_pos = \<lparr>vx = 4, vy = 0\<rparr>, node_res = \<lparr>vx = 4, vy = 4\<rparr>, node_vertex = Null,
       node_s = \<lparr>root = \<lparr>start = Addr 32, bsize = 16\<rparr>, res = \<lparr>vx = 4, vy = 4\<rparr>, scale = 1\<rparr>\<rparr>,
      \<lparr>node_pos = \<lparr>vx = 4, vy = 4\<rparr>, node_res = \<lparr>vx = 4, vy = 4\<rparr>, node_vertex = Null,
       node_s = \<lparr>root = \<lparr>start = Addr 48, bsize = 16\<rparr>, res = \<lparr>vx = 4, vy = 4\<rparr>, scale = 1\<rparr>\<rparr>]) \<lparr>vx = 8, vy = 2\<rparr> = Inr NodeNull"
proof -
  let ?ts = "[\<lparr>node_pos = \<lparr>vx = 0, vy = 0\<rparr>, node_res = \<lparr>vx = 4, vy = 4\<rparr>, node_vertex = Null,
       node_s = \<lparr>root = \<lparr>start = Addr 0, bsize = 16\<rparr>, res = \<lparr>vx = 4, vy = 4\<rparr>, scale = 1\<rparr>\<rparr>,
      \<lparr>node_pos = \<lparr>vx = 0, vy = 4\<rparr>, node_res = \<lparr>vx = 4, vy = 4\<rparr>, node_vertex = Null,
       node_s = \<lparr>root = \<lparr>start = Addr 16, bsize = 16\<rparr>, res = \<lparr>vx = 4, vy = 4\<rparr>, scale = 1\<rparr>\<rparr>,
      \<lparr>node_pos = \<lparr>vx = 4, vy = 0\<rparr>, node_res = \<lparr>vx = 4, vy = 4\<rparr>, node_vertex = Null,
       node_s = \<lparr>root = \<lparr>start = Addr 32, bsize = 16\<rparr>, res = \<lparr>vx = 4, vy = 4\<rparr>, scale = 1\<rparr>\<rparr>,
      \<lparr>node_pos = \<lparr>vx = 4, vy = 4\<rparr>, node_res = \<lparr>vx = 4, vy = 4\<rparr>, node_vertex = Null,
       node_s = \<lparr>root = \<lparr>start = Addr 48, bsize = 16\<rparr>, res = \<lparr>vx = 4, vy = 4\<rparr>, scale = 1\<rparr>\<rparr>]"
  have u: "origin_row_major_grid 4 2 ?ts"
    by (simp add: origin_row_major_grid_def upt_rec)
  have r1: "in_int32 (2 * 4)" and r2: "in_int32 (2 * 2)"
    by (simp_all add: in_int32_def)
  note th = map_get_uniform_grid [OF u r1 r2]
  note out = th [THEN conjunct1, rule_format]
  note ins = th [THEN conjunct2, THEN conjunct1, rule_format]
  have k: "(2 :: nat) < length ?ts" by simp
  have f: "footprint (node_pos (?ts ! 2)) (node_res (?ts ! 2)) \<lparr>vx = 5, vy = 2\<rparr>"
    by (simp add: footprint_def)
  from ins [OF conjI [OF k f]]
  have a: "map_get 4 2 (quadmap_adds ?ts) \<lparr>vx = 5, vy = 2\<rparr> = Inr (NodeAt 2)"
    by simp
  have mx: "vx (map_max (quadmap_adds ?ts)) \<le> vx \<lparr>vx = 8, vy = 2\<rparr>"
    by (simp add: quadmap_adds_def quadmap_add_def quadmap_empty_def ivec2_max_def
        ivec2_add_def wrap32_def)
  have b: "map_get 4 2 (quadmap_adds ?ts) \<lparr>vx = 8, vy = 2\<rparr> = Inr NodeNull"
    by (rule out) (use mx in blast)
  from u a b show ?thesis by simp
qed

lemma upto_0_1: "[0 .. (1 :: int)] = [0, 1]"
proof -
  have "[0 .. (1 :: int)] = 0 # [1 .. 1]" by (subst upto.simps) simp
  also have "[1 .. (1 :: int)] = [1]" by (subst upto.simps) simp
  finally show ?thesis .
qed

text \<open>Claim C4 as stated fails on a uniform grid whose lattice does not start at the
  origin: four tiles of extent 4 by 4 at \<open>(4,4)\<close>, \<open>(4,8)\<close>, \<open>(8,4)\<close> and \<open>(8,8)\<close>, two per
  axis. The point \<open>(5,5)\<close> lies in the footprint of the tile in slot 0 and of no other
  tile, and \<open>get\<close> returns the pointer to slot 3. The point \<open>(10,10)\<close> lies in the
  footprint of the tile in slot 3, and \<open>get\<close> returns the pointer to slot 6, which the
  collection of four tiles does not have.\<close>

theorem map_get_uniform_grid_counterexample:
  "spec_uniform_grid 4 2
     [\<lparr>node_pos = \<lparr>vx = 4, vy = 4\<rparr>, node_res = \<lparr>vx = 4, vy = 4\<rparr>, node_vertex = Null,
       node_s = \<lparr>root = \<lparr>start = Addr 0, bsize = 16\<rparr>, res = \<lparr>vx = 4, vy = 4\<rparr>, scale = 1\<rparr>\<rparr>,
      \<lparr>node_pos = \<lparr>vx = 4, vy = 8\<rparr>, node_res = \<lparr>vx = 4, vy = 4\<rparr>, node_vertex = Null,
       node_s = \<lparr>root = \<lparr>start = Addr 16, bsize = 16\<rparr>, res = \<lparr>vx = 4, vy = 4\<rparr>, scale = 1\<rparr>\<rparr>,
      \<lparr>node_pos = \<lparr>vx = 8, vy = 4\<rparr>, node_res = \<lparr>vx = 4, vy = 4\<rparr>, node_vertex = Null,
       node_s = \<lparr>root = \<lparr>start = Addr 32, bsize = 16\<rparr>, res = \<lparr>vx = 4, vy = 4\<rparr>, scale = 1\<rparr>\<rparr>,
      \<lparr>node_pos = \<lparr>vx = 8, vy = 8\<rparr>, node_res = \<lparr>vx = 4, vy = 4\<rparr>, node_vertex = Null,
       node_s = \<lparr>root = \<lparr>start = Addr 48, bsize = 16\<rparr>, res = \<lparr>vx = 4, vy = 4\<rparr>, scale = 1\<rparr>\<rparr>] \<and>
   footprint \<lparr>vx = 4, vy = 4\<rparr> \<lparr>vx = 4, vy = 4\<rparr> \<lparr>vx = 5, vy = 5\<rparr> \<and>
   \<not> footprint \<lparr>vx = 4, vy = 8\<rparr> \<lparr>vx = 4, vy = 4\<rparr> \<lparr>vx = 5, vy = 5\<rparr> \<and>
   \<not> footprint \<lparr>vx = 8, vy = 4\<rparr> \<lparr>vx = 4, vy = 4\<rparr> \<lparr>vx = 5, vy = 5\<rparr> \<and>
   \<not> footprint \<lparr>vx = 8, vy = 8\<rparr> \<lparr>vx = 4, vy = 4\<rparr> \<lparr>vx = 5, vy = 5\<rparr> \<and>
   map_get 4 2 (quadmap_adds
     [\<lparr>node_pos = \<lparr>vx = 4, vy = 4\<rparr>, node_res = \<lparr>vx = 4, vy = 4\<rparr>, node_vertex = Null,
       node_s = \<lparr>root = \<lparr>start = Addr 0, bsize = 16\<rparr>, res = \<lparr>vx = 4, vy = 4\<rparr>, scale = 1\<rparr>\<rparr>,
      \<lparr>node_pos = \<lparr>vx = 4, vy = 8\<rparr>, node_res = \<lparr>vx = 4, vy = 4\<rparr>, node_vertex = Null,
       node_s = \<lparr>root = \<lparr>start = Addr 16, bsize = 16\<rparr>, res = \<lparr>vx = 4, vy = 4\<rparr>, scale = 1\<rparr>\<rparr>,
      \<lparr>node_pos = \<lparr>vx = 8, vy = 4\<rparr>, node_res = \<lparr>vx = 4, vy = 4\<rparr>, node_vertex = Null,
       node_s = \<lparr>root = \<lparr>start = Addr 32, bsize = 16\<rparr>, res = \<lparr>vx = 4, vy = 4\<rparr>, scale = 1\<rparr>\<rparr>,
      \<lparr>node_pos = \<lparr>vx = 8, vy = 8\<rparr>, node_res = \<lparr>vx = 4, vy = 4\<rparr>, node_vertex = Null,
       node_s = \<lparr>root = \<lparr>start = Addr 48, bsize = 16\<rparr>, res = \<lparr>vx = 4, vy = 4\<rparr>, scale = 1\<rparr>\<rparr>]) \<lparr>vx = 5, vy = 5\<rparr> = Inr (NodeAt 3) \<and>
   footprint \<lparr>vx = 8, vy = 8\<rparr> \<lparr>vx = 4, vy = 4\<rparr> \<lparr>vx = 10, vy = 10\<rparr> \<and>
   map_get 4 2 (quadmap_adds
     [\<lparr>node_pos = \<lparr>vx = 4, vy = 4\<rparr>, node_res = \<lparr>vx = 4, vy = 4\<rparr>, node_vertex = Null,
       node_s = \<lparr>root = \<lparr>start = Addr 0, bsize = 16\<rparr>, res = \<lparr>vx = 4, vy = 4\<rparr>, scale = 1\<rparr>\<rparr>,
      \<lparr>node_pos = \<lparr>vx = 4, vy = 8\<rparr>, node_res = \<lparr>vx = 4, vy = 4\<rparr>, node_vertex = Null,
       node_s = \<lparr>root = \<lparr>start = Addr 16, bsize = 16\<rparr>, res = \<lparr>vx = 4, vy = 4\<rparr>, scale = 1\<rparr>\<rparr>,
      \<lparr>node_pos = \<lparr>vx = 8, vy = 4\<rparr>, node_res = \<lparr>vx = 4, vy = 4\<rparr>, node_vertex = Null,
       node_s = \<lparr>root = \<lparr>start = Addr 32, bsize = 16\<rparr>, res = \<lparr>vx = 4, vy = 4\<rparr>, scale = 1\<rparr>\<rparr>,
      \<lparr>node_pos = \<lparr>vx = 8, vy = 8\<rparr>, node_res = \<lparr>vx = 4, vy = 4\<rparr>, node_vertex = Null,
       node_s = \<lparr>root = \<lparr>start = Addr 48, bsize = 16\<rparr>, res = \<lparr>vx = 4, vy = 4\<rparr>, scale = 1\<rparr>\<rparr>]) \<lparr>vx = 10, vy = 10\<rparr> = Inr (NodeAt 6) \<and>
   length (nodes (quadmap_adds
     [\<lparr>node_pos = \<lparr>vx = 4, vy = 4\<rparr>, node_res = \<lparr>vx = 4, vy = 4\<rparr>, node_vertex = Null,
       node_s = \<lparr>root = \<lparr>start = Addr 0, bsize = 16\<rparr>, res = \<lparr>vx = 4, vy = 4\<rparr>, scale = 1\<rparr>\<rparr>,
      \<lparr>node_pos = \<lparr>vx = 4, vy = 8\<rparr>, node_res = \<lparr>vx = 4, vy = 4\<rparr>, node_vertex = Null,
       node_s = \<lparr>root = \<lparr>start = Addr 16, bsize = 16\<rparr>, res = \<lparr>vx = 4, vy = 4\<rparr>, scale = 1\<rparr>\<rparr>,
      \<lparr>node_pos = \<lparr>vx = 8, vy = 4\<rparr>, node_res = \<lparr>vx = 4, vy = 4\<rparr>, node_vertex = Null,
       node_s = \<lparr>root = \<lparr>start = Addr 32, bsize = 16\<rparr>, res = \<lparr>vx = 4, vy = 4\<rparr>, scale = 1\<rparr>\<rparr>,
      \<lparr>node_pos = \<lparr>vx = 8, vy = 8\<rparr>, node_res = \<lparr>vx = 4, vy = 4\<rparr>, node_vertex = Null,
       node_s = \<lparr>root = \<lparr>start = Addr 48, bsize = 16\<rparr>, res = \<lparr>vx = 4, vy = 4\<rparr>, scale = 1\<rparr>\<rparr>])) = 4"
proof -
  let ?ts = "[\<lparr>node_pos = \<lparr>vx = 4, vy = 4\<rparr>, node_res = \<lparr>vx = 4, vy = 4\<rparr>, node_vertex = Null,
       node_s = \<lparr>root = \<lparr>start = Addr 0, bsize = 16\<rparr>, res = \<lparr>vx = 4, vy = 4\<rparr>, scale = 1\<rparr>\<rparr>,
      \<lparr>node_pos = \<lparr>vx = 4, vy = 8\<rparr>, node_res = \<lparr>vx = 4, vy = 4\<rparr>, node_vertex = Null,
       node_s = \<lparr>root = \<lparr>start = Addr 16, bsize = 16\<rparr>, res = \<lparr>vx = 4, vy = 4\<rparr>, scale = 1\<rparr>\<rparr>,
      \<lparr>node_pos = \<lparr>vx = 8, vy = 4\<rparr>, node_res = \<lparr>vx = 4, vy = 4\<rparr>, node_vertex = Null,
       node_s = \<lparr>root = \<lparr>start = Addr 32, bsize = 16\<rparr>, res = \<lparr>vx = 4, vy = 4\<rparr>, scale = 1\<rparr>\<rparr>,
      \<lparr>node_pos = \<lparr>vx = 8, vy = 8\<rparr>, node_res = \<lparr>vx = 4, vy = 4\<rparr>, node_vertex = Null,
       node_s = \<lparr>root = \<lparr>start = Addr 48, bsize = 16\<rparr>, res = \<lparr>vx = 4, vy = 4\<rparr>, scale = 1\<rparr>\<rparr>]"
  have grid: "spec_uniform_grid 4 2 ?ts"
    by (simp add: spec_uniform_grid_def spec_min_def ivec2_min_def upto_0_1)
  have fp: "footprint \<lparr>vx = 4, vy = 4\<rparr> \<lparr>vx = 4, vy = 4\<rparr> \<lparr>vx = 5, vy = 5\<rparr>"
    "\<not> footprint \<lparr>vx = 4, vy = 8\<rparr> \<lparr>vx = 4, vy = 4\<rparr> \<lparr>vx = 5, vy = 5\<rparr>"
    "\<not> footprint \<lparr>vx = 8, vy = 4\<rparr> \<lparr>vx = 4, vy = 4\<rparr> \<lparr>vx = 5, vy = 5\<rparr>"
    "\<not> footprint \<lparr>vx = 8, vy = 8\<rparr> \<lparr>vx = 4, vy = 4\<rparr> \<lparr>vx = 5, vy = 5\<rparr>"
    "footprint \<lparr>vx = 8, vy = 8\<rparr> \<lparr>vx = 4, vy = 4\<rparr> \<lparr>vx = 10, vy = 10\<rparr>"
    by (simp_all add: footprint_def)
  have g: "quadmap_adds ?ts =
      \<lparr>nodes = ?ts, map_min = \<lparr>vx = 0, vy = 0\<rparr>, map_max = \<lparr>vx = 12, vy = 12\<rparr>\<rparr>"
    by (simp add: quadmap_adds_def quadmap_add_def quadmap_empty_def ivec2_min_def
        ivec2_max_def ivec2_add_def wrap32_def)
  have a: "map_get 4 2 (quadmap_adds ?ts) \<lparr>vx = 5, vy = 5\<rparr> = Inr (NodeAt 3)"
    unfolding g by (simp add: map_get_def map_oob_def ivec2_div_def c_div_def wrap32_def)
  have b: "map_get 4 2 (quadmap_adds ?ts) \<lparr>vx = 10, vy = 10\<rparr> = Inr (NodeAt 6)"
    unfolding g by (simp add: map_get_def map_oob_def ivec2_div_def c_div_def wrap32_def)
  have c: "length (nodes (quadmap_adds ?ts)) = 4"
    unfolding g by simp
  from grid fp a b c show ?thesis by (intro conjI)
qed

section \<open>Setting up the fixed arrangement of tiles\<close>

lemma mapsize_range: "[0 .. mapsize - 1] = [0, 1]"
  by (simp add: mapsize_def upto_0_1)

lemma init_constants:
  "c_div tilearea levelarea = Inr 65536"
  "ivec2_div_scalar tileres levelsize = Inr \<lparr>vx = 256, vy = 256\<rparr>"
  by (simp_all add: c_div_def ivec2_div_scalar_eq tilearea_def levelarea_def tileres_def
      tilesize_def levelsize_def)

text \<open>The tile that \<open>init\<close> stores in slot \<open>i * mapsize + j\<close>, given the buffer \<open>b\<close> that the
  cell pool returned for it.\<close>

lemma init_tile_eq:
  "init_tile sect i j (m, cp) =
     Inr (m\<lparr>qnodes := (qnodes m)[nat (wrap32 (wrap32 (i * 2) + j)) :=
            \<lparr>qnode_pos = \<lparr>vx = wrap32 (512 * i), vy = wrap32 (512 * j)\<rparr>,
             qnode_res = \<lparr>vx = 512, vy = 512\<rparr>,
             qnode_vertex = sect (wrap32 (wrap32 (i * 2) + j)),
             qnode_s = \<lparr>root = fst (pool_get cp 65536), res = \<lparr>vx = 256, vy = 256\<rparr>\<rparr>\<rparr>]\<rparr>,
          snd (pool_get cp 65536))"
  by (simp add: init_tile_def init_constants Let_def split_def)
    (simp add: ivec2_mul_def tileres_def tilesize_def mapsize_def)

lemma init_eq:
  "init sect m cp =
     Inr (m\<lparr>qnodes := (qnodes m)
            [0 := \<lparr>qnode_pos = \<lparr>vx = 0, vy = 0\<rparr>, qnode_res = \<lparr>vx = 512, vy = 512\<rparr>,
                   qnode_vertex = sect 0,
                   qnode_s = \<lparr>root = fst (pool_gets cp [65536, 65536, 65536, 65536]) ! 0,
                              res = \<lparr>vx = 256, vy = 256\<rparr>\<rparr>\<rparr>,
             1 := \<lparr>qnode_pos = \<lparr>vx = 0, vy = 512\<rparr>, qnode_res = \<lparr>vx = 512, vy = 512\<rparr>,
                   qnode_vertex = sect 1,
                   qnode_s = \<lparr>root = fst (pool_gets cp [65536, 65536, 65536, 65536]) ! 1,
                              res = \<lparr>vx = 256, vy = 256\<rparr>\<rparr>\<rparr>,
             2 := \<lparr>qnode_pos = \<lparr>vx = 512, vy = 0\<rparr>, qnode_res = \<lparr>vx = 512, vy = 512\<rparr>,
                   qnode_vertex = sect 2,
                   qnode_s = \<lparr>root = fst (pool_gets cp [65536, 65536, 65536, 65536]) ! 2,
                              res = \<lparr>vx = 256, vy = 256\<rparr>\<rparr>\<rparr>,
             3 := \<lparr>qnode_pos = \<lparr>vx = 512, vy = 512\<rparr>, qnode_res = \<lparr>vx = 512, vy = 512\<rparr>,
                   qnode_vertex = sect 3,
                   qnode_s = \<lparr>root = fst (pool_gets cp [65536, 65536, 65536, 65536]) ! 3,
                              res = \<lparr>vx = 256, vy = 256\<rparr>\<rparr>\<rparr>]\<rparr>,
          snd (pool_gets cp [65536, 65536, 65536, 65536]))"
  unfolding init_def mapsize_range
  by (simp add: init_tile_eq split_def Let_def numeral_3_eq_3 numeral_2_eq_2 wrap32_def)

lemma quad_node_get_dead:
  assumes "start (root (qnode_s n)) = Null"
  shows "quad_node_get n p = Inr Null"
  using assms levelsize_pos
  by (simp add: quad_node_get_def ivec2_div_scalar_pos slice_get_def)

text \<open>
  Claim C8. \<open>init\<close> runs to its end whatever the cell pool returns. Every slot of the map
  then holds its tile at \<open>tileres * (i, j)\<close> with extent \<open>tileres\<close>, backed by the buffer
  that the pool returned for it, and \<open>map::get\<close> resolves every point of the tile's
  footprint to that slot. If that buffer is the failure value \<^verbatim>\<open>{NULL, 0}\<close>, the tile's
  \<open>get(p)\<close> is null for every point \<open>p\<close>.
\<close>

theorem init_dead_tile:
  assumes "length (qnodes m0) = nat maparea"
  shows "\<exists>m cp'.
           init sect m0 cp = Inr (m, cp') \<and>
           length (qnodes m) = nat maparea \<and>
           cp' = snd (pool_gets cp [65536, 65536, 65536, 65536]) \<and>
           (\<forall>i j. 0 \<le> i \<and> i < mapsize \<and> 0 \<le> j \<and> j < mapsize \<longrightarrow>
              qnode_pos (qnodes m ! nat (i * mapsize + j)) =
                \<lparr>vx = tilesize * i, vy = tilesize * j\<rparr> \<and>
              qnode_res (qnodes m ! nat (i * mapsize + j)) = tileres \<and>
              root (qnode_s (qnodes m ! nat (i * mapsize + j))) =
                fst (pool_gets cp [65536, 65536, 65536, 65536]) ! nat (i * mapsize + j) \<and>
              (\<forall>p. footprint (qnode_pos (qnodes m ! nat (i * mapsize + j)))
                     (qnode_res (qnodes m ! nat (i * mapsize + j))) p \<longrightarrow>
                   quad_map_get p = Inr (NodeAt (i * mapsize + j))) \<and>
              (root (qnode_s (qnodes m ! nat (i * mapsize + j))) = null_buf \<longrightarrow>
                 (\<forall>p. quad_node_get (qnodes m ! nat (i * mapsize + j)) p = Inr Null)))"
proof -
  let ?bs = "fst (pool_gets cp [65536, 65536, 65536, 65536])"
  obtain m cp' where run: "init sect m0 cp = Inr (m, cp')"
    and cp': "cp' = snd (pool_gets cp [65536, 65536, 65536, 65536])"
    and m: "m = m0\<lparr>qnodes := (qnodes m0)
            [0 := \<lparr>qnode_pos = \<lparr>vx = 0, vy = 0\<rparr>, qnode_res = \<lparr>vx = 512, vy = 512\<rparr>,
                   qnode_vertex = sect 0,
                   qnode_s = \<lparr>root = ?bs ! 0, res = \<lparr>vx = 256, vy = 256\<rparr>\<rparr>\<rparr>,
             1 := \<lparr>qnode_pos = \<lparr>vx = 0, vy = 512\<rparr>, qnode_res = \<lparr>vx = 512, vy = 512\<rparr>,
                   qnode_vertex = sect 1,
                   qnode_s = \<lparr>root = ?bs ! 1, res = \<lparr>vx = 256, vy = 256\<rparr>\<rparr>\<rparr>,
             2 := \<lparr>qnode_pos = \<lparr>vx = 512, vy = 0\<rparr>, qnode_res = \<lparr>vx = 512, vy = 512\<rparr>,
                   qnode_vertex = sect 2,
                   qnode_s = \<lparr>root = ?bs ! 2, res = \<lparr>vx = 256, vy = 256\<rparr>\<rparr>\<rparr>,
             3 := \<lparr>qnode_pos = \<lparr>vx = 512, vy = 512\<rparr>, qnode_res = \<lparr>vx = 512, vy = 512\<rparr>,
                   qnode_vertex = sect 3,
                   qnode_s = \<lparr>root = ?bs ! 3, res = \<lparr>vx = 256, vy = 256\<rparr>\<rparr>\<rparr>]\<rparr>"
    using init_eq [of sect m0 cp] by blast
  from assms have len0: "length (qnodes m0) = 4"
    by (simp add: maparea_def mapsize_def)
  then have len: "length (qnodes m) = nat maparea"
    by (simp add: m maparea_def mapsize_def)
  have slot: "qnode_pos (qnodes m ! nat (i * mapsize + j)) = \<lparr>vx = tilesize * i, vy = tilesize * j\<rparr> \<and>
              qnode_res (qnodes m ! nat (i * mapsize + j)) = tileres \<and>
              root (qnode_s (qnodes m ! nat (i * mapsize + j))) = ?bs ! nat (i * mapsize + j)"
    if "0 \<le> i \<and> i < mapsize \<and> 0 \<le> j \<and> j < mapsize" for i j
    using slot_cases [OF that] len0
    by (auto simp: m mapsize_def tilesize_def tileres_def)
  have resolve: "quad_map_get p = Inr (NodeAt (i * mapsize + j))"
    if ij: "0 \<le> i \<and> i < mapsize \<and> 0 \<le> j \<and> j < mapsize"
      and f: "footprint (qnode_pos (qnodes m ! nat (i * mapsize + j)))
                (qnode_res (qnodes m ! nat (i * mapsize + j))) p" for i j p
  proof -
    from f slot [OF ij]
    have "footprint \<lparr>vx = tilesize * i, vy = tilesize * j\<rparr> tileres p"
      by simp
    with ij show ?thesis by (intro quad_map_lookup)
  qed
  have dead: "quad_node_get (qnodes m ! nat (i * mapsize + j)) p = Inr Null"
    if "root (qnode_s (qnodes m ! nat (i * mapsize + j))) = null_buf" for i j p
    using that by (intro quad_node_get_dead) (simp add: null_buf_def)
  from run len cp' slot resolve dead show ?thesis by blast
qed

theorem init_dead_tile_witness:
  "\<exists>m cp'.
     init (\<lambda>k. Null)
       \<lparr>qnodes = [\<lparr>qnode_pos = \<lparr>vx = 0, vy = 0\<rparr>, qnode_res = \<lparr>vx = 0, vy = 0\<rparr>, qnode_vertex = Null,
             qnode_s = \<lparr>root = null_buf, res = \<lparr>vx = 0, vy = 0\<rparr>\<rparr>\<rparr>,
   \<lparr>qnode_pos = \<lparr>vx = 0, vy = 0\<rparr>, qnode_res = \<lparr>vx = 0, vy = 0\<rparr>, qnode_vertex = Null,
             qnode_s = \<lparr>root = null_buf, res = \<lparr>vx = 0, vy = 0\<rparr>\<rparr>\<rparr>,
   \<lparr>qnode_pos = \<lparr>vx = 0, vy = 0\<rparr>, qnode_res = \<lparr>vx = 0, vy = 0\<rparr>, qnode_vertex = Null,
             qnode_s = \<lparr>root = null_buf, res = \<lparr>vx = 0, vy = 0\<rparr>\<rparr>\<rparr>,
   \<lparr>qnode_pos = \<lparr>vx = 0, vy = 0\<rparr>, qnode_res = \<lparr>vx = 0, vy = 0\<rparr>, qnode_vertex = Null,
             qnode_s = \<lparr>root = null_buf, res = \<lparr>vx = 0, vy = 0\<rparr>\<rparr>\<rparr>]\<rparr>
       (pool_new 0 196608) = Inr (m, cp') \<and>
     root (qnode_s (qnodes m ! 3)) = null_buf \<and>
     qnode_pos (qnodes m ! 3) = \<lparr>vx = 512, vy = 512\<rparr> \<and>
     quad_map_get \<lparr>vx = 600, vy = 700\<rparr> = Inr (NodeAt 3) \<and>
     quad_node_get (qnodes m ! 3) \<lparr>vx = 600, vy = 700\<rparr> = Inr Null"
proof -
  let ?m0 = "\<lparr>qnodes = [\<lparr>qnode_pos = \<lparr>vx = 0, vy = 0\<rparr>, qnode_res = \<lparr>vx = 0, vy = 0\<rparr>, qnode_vertex = Null,
             qnode_s = \<lparr>root = null_buf, res = \<lparr>vx = 0, vy = 0\<rparr>\<rparr>\<rparr>,
   \<lparr>qnode_pos = \<lparr>vx = 0, vy = 0\<rparr>, qnode_res = \<lparr>vx = 0, vy = 0\<rparr>, qnode_vertex = Null,
             qnode_s = \<lparr>root = null_buf, res = \<lparr>vx = 0, vy = 0\<rparr>\<rparr>\<rparr>,
   \<lparr>qnode_pos = \<lparr>vx = 0, vy = 0\<rparr>, qnode_res = \<lparr>vx = 0, vy = 0\<rparr>, qnode_vertex = Null,
             qnode_s = \<lparr>root = null_buf, res = \<lparr>vx = 0, vy = 0\<rparr>\<rparr>\<rparr>,
   \<lparr>qnode_pos = \<lparr>vx = 0, vy = 0\<rparr>, qnode_res = \<lparr>vx = 0, vy = 0\<rparr>, qnode_vertex = Null,
             qnode_s = \<lparr>root = null_buf, res = \<lparr>vx = 0, vy = 0\<rparr>\<rparr>\<rparr>]\<rparr>"
  let ?cp = "pool_new 0 196608"
  have h: "length (qnodes ?m0) = nat maparea"
    by (simp add: maparea_def mapsize_def)
  from init_dead_tile [OF h, of "\<lambda>k. Null" ?cp]
  obtain m cp' where run: "init (\<lambda>k. Null) ?m0 ?cp = Inr (m, cp')"
    and slots: "\<forall>i j. 0 \<le> i \<and> i < mapsize \<and> 0 \<le> j \<and> j < mapsize \<longrightarrow>
              qnode_pos (qnodes m ! nat (i * mapsize + j)) =
                \<lparr>vx = tilesize * i, vy = tilesize * j\<rparr> \<and>
              qnode_res (qnodes m ! nat (i * mapsize + j)) = tileres \<and>
              root (qnode_s (qnodes m ! nat (i * mapsize + j))) =
                fst (pool_gets ?cp [65536, 65536, 65536, 65536]) ! nat (i * mapsize + j) \<and>
              (\<forall>p. footprint (qnode_pos (qnodes m ! nat (i * mapsize + j)))
                     (qnode_res (qnodes m ! nat (i * mapsize + j))) p \<longrightarrow>
                   quad_map_get p = Inr (NodeAt (i * mapsize + j))) \<and>
              (root (qnode_s (qnodes m ! nat (i * mapsize + j))) = null_buf \<longrightarrow>
                 (\<forall>p. quad_node_get (qnodes m ! nat (i * mapsize + j)) p = Inr Null))"
    by blast
  have ij: "(0 :: int) \<le> 1 \<and> 1 < mapsize \<and> (0 :: int) \<le> 1 \<and> 1 < mapsize"
    by (simp add: mapsize_def)
  have three: "nat (1 * mapsize + 1) = 3" by (simp add: mapsize_def)
  note s3 = slots [rule_format, OF ij, unfolded three]
  have bufs: "fst (pool_gets ?cp [65536, 65536, 65536, 65536]) ! 3 = null_buf"
    by (simp add: pool_new_eq pool_get_def numeral_3_eq_3)
  from s3 have pos: "qnode_pos (qnodes m ! 3) = \<lparr>vx = 512, vy = 512\<rparr>"
    and res3: "qnode_res (qnodes m ! 3) = \<lparr>vx = 512, vy = 512\<rparr>"
    by (simp_all add: tilesize_def tileres_def)
  from s3 bufs have root3: "root (qnode_s (qnodes m ! 3)) = null_buf" by simp
  have f: "footprint (qnode_pos (qnodes m ! 3)) (qnode_res (qnodes m ! 3)) \<lparr>vx = 600, vy = 700\<rparr>"
    by (simp add: pos res3 footprint_def)
  from s3 f have get: "quad_map_get \<lparr>vx = 600, vy = 700\<rparr> = Inr (NodeAt 3)"
    by (simp add: mapsize_def)
  from s3 root3 have dead: "quad_node_get (qnodes m ! 3) \<lparr>vx = 600, vy = 700\<rparr> = Inr Null"
    by simp
  from run root3 pos get dead show ?thesis by blast
qed

end
